theory Spec2Isabelle
  imports Main "HOL-Library.Monad_Syntax"
begin

section \<open>Python strings\<close>

text \<open>
  A Python \<^verbatim>\<open>str\<close> is a sequence of Unicode code points; indexing, slicing and
  \<^verbatim>\<open>len\<close> count code points.  The scripts compare against the bullet character
  U+2022, which is one code point, so a string is modelled as a list of code points
  (natural numbers), not as a list of bytes.
\<close>

type_synonym ustr = "nat list"

definition ascii :: "string \<Rightarrow> ustr" where
  "ascii s = map of_char s"

abbreviation (input) NL :: nat where "NL \<equiv> 10"
abbreviation (input) SP :: nat where "SP \<equiv> 32"
abbreviation (input) STAR :: nat where "STAR \<equiv> 42"
abbreviation (input) USCORE :: nat where "USCORE \<equiv> 95"
abbreviation (input) BTICK :: nat where "BTICK \<equiv> 96"
abbreviation (input) TILDE :: nat where "TILDE \<equiv> 126"
abbreviation (input) LBRACK :: nat where "LBRACK \<equiv> 91"
abbreviation (input) RBRACK :: nat where "RBRACK \<equiv> 93"
abbreviation (input) LPAREN :: nat where "LPAREN \<equiv> 40"
abbreviation (input) RPAREN :: nat where "RPAREN \<equiv> 41"

text \<open>
  The whitespace of \<^verbatim>\<open>str.strip()\<close>, \<^verbatim>\<open>str.isspace()\<close> and of \<^verbatim>\<open>\s\<close> in a
  \<^verbatim>\<open>str\<close> pattern (all three use CPython's \<^verbatim>\<open>Py_UNICODE_ISSPACE\<close>).
\<close>

definition is_space :: "nat \<Rightarrow> bool" where
  "is_space c \<longleftrightarrow>
     (9 \<le> c \<and> c \<le> 13) \<or> (28 \<le> c \<and> c \<le> 32) \<or> c = 133 \<or> c = 160 \<or> c = 5760 \<or>
     (8192 \<le> c \<and> c \<le> 8202) \<or> c = 8232 \<or> c = 8233 \<or> c = 8239 \<or> c = 8287 \<or> c = 12288"

definition lstrip :: "ustr \<Rightarrow> ustr" where
  "lstrip s = dropWhile is_space s"

definition rstrip :: "ustr \<Rightarrow> ustr" where
  "rstrip s = rev (dropWhile is_space (rev s))"

text \<open>\<^verbatim>\<open>s.strip()\<close>\<close>

definition strip :: "ustr \<Rightarrow> ustr" where
  "strip s = lstrip (rstrip s)"

text \<open>\<^verbatim>\<open>s.startswith(p)\<close> and \<^verbatim>\<open>s.endswith(p)\<close>\<close>

definition startswith :: "ustr \<Rightarrow> ustr \<Rightarrow> bool" where
  "startswith s p \<longleftrightarrow> take (length p) s = p"

definition endswith :: "ustr \<Rightarrow> ustr \<Rightarrow> bool" where
  "endswith s p \<longleftrightarrow> length p \<le> length s \<and> drop (length s - length p) s = p"

text \<open>\<^verbatim>\<open>s.split('\n')\<close>: never empty; \<^verbatim>\<open>''.split('\n') == ['']\<close>.\<close>

fun split_nl :: "ustr \<Rightarrow> ustr list" where
  "split_nl [] = [[]]"
| "split_nl (c # cs) =
     (if c = NL then [] # split_nl cs
      else (case split_nl cs of l # ls \<Rightarrow> (c # l) # ls | [] \<Rightarrow> [[c]]))"

text \<open>
  \<^verbatim>\<open>s.find(sub, start)\<close>: the lowest index not below \<open>start\<close> where \<open>sub\<close> occurs;
  Python's \<open>-1\<close> is \<open>None\<close>.
\<close>

fun find_at :: "ustr \<Rightarrow> ustr \<Rightarrow> nat \<Rightarrow> nat option" where
  "find_at sub [] pos = (if sub = [] then Some pos else None)"
| "find_at sub (c # cs) pos =
     (if startswith (c # cs) sub then Some pos else find_at sub cs (Suc pos))"

definition find_str :: "ustr \<Rightarrow> ustr \<Rightarrow> nat \<Rightarrow> nat option" where
  "find_str s sub start =
     (if start \<le> length s then find_at sub (drop start s) start else None)"

text \<open>\<^verbatim>\<open>sub in s\<close>\<close>

definition contains :: "ustr \<Rightarrow> ustr \<Rightarrow> bool" where
  "contains sub s \<longleftrightarrow> find_str s sub 0 \<noteq> None"

text \<open>\<^verbatim>\<open>s[i:j]\<close> for non-negative \<open>i\<close>, \<open>j\<close>: empty when \<open>j \<le> i\<close>.\<close>

definition slice :: "ustr \<Rightarrow> nat \<Rightarrow> nat \<Rightarrow> ustr" where
  "slice s i j = take (j - i) (drop i s)"

text \<open>The rest of the current line: what a lazy \<^verbatim>\<open>.+?\<close> before \<^verbatim>\<open>$\<close> can cover.\<close>

definition line_rest :: "ustr \<Rightarrow> ustr" where
  "line_rest s = takeWhile (\<lambda>c. c \<noteq> NL) s"

section \<open>Retrying fetcher\<close>

subsection \<open>The meta-image pattern\<close>

text \<open>
  \<^verbatim>\<open>re.search(r'<meta\s+property=["\']og:image["\']\s+content=["\']([^"\']+)["\']|'
            r'<meta\s+content=["\']([^"\']+)["\']\s+property=["\']og:image["\']',
            html_content, re.IGNORECASE)\<close>

  Each piece of the pattern is a function from the text still to be read to the text after
  the piece (\<open>None\<close> when the piece does not match there).  Under \<^verbatim>\<open>re.IGNORECASE\<close> a
  lower-case ASCII letter of the pattern matches itself and its upper-case form; in
  addition \<^verbatim>\<open>i\<close> matches U+0130 and U+0131 (the letters \<^verbatim>\<open>s\<close> and \<^verbatim>\<open>k\<close>, which have such
  extra partners too, do not occur in the pattern).
\<close>

definition ci_eq :: "nat \<Rightarrow> nat \<Rightarrow> bool" where
  "ci_eq p c \<longleftrightarrow>
     c = p \<or> (97 \<le> p \<and> p \<le> 122 \<and> c + 32 = p) \<or> (p = 105 \<and> (c = 304 \<or> c = 305))"

fun lit_ci :: "ustr \<Rightarrow> ustr \<Rightarrow> ustr option" where
  "lit_ci [] s = Some s"
| "lit_ci (p # ps) [] = None"
| "lit_ci (p # ps) (c # cs) = (if ci_eq p c then lit_ci ps cs else None)"

text \<open>
  \<^verbatim>\<open>\s+\<close>: greedy, and what follows it in the pattern is a letter, so only the whole run of
  whitespace can be followed by a match.
\<close>

definition spaces1 :: "ustr \<Rightarrow> ustr option" where
  "spaces1 s = (if takeWhile is_space s = [] then None else Some (dropWhile is_space s))"

definition is_quote :: "nat \<Rightarrow> bool" where
  "is_quote c \<longleftrightarrow> c = 34 \<or> c = 39"

text \<open>\<^verbatim>\<open>["\']\<close>\<close>

fun quote1 :: "ustr \<Rightarrow> ustr option" where
  "quote1 [] = None"
| "quote1 (c # cs) = (if is_quote c then Some cs else None)"

text \<open>
  \<^verbatim>\<open>([^"\']+)["\']\<close>: the group is the whole run up to the next quote, which must exist and
  must not come at once.
\<close>

definition quoted_value :: "ustr \<Rightarrow> (ustr \<times> ustr) option" where
  "quoted_value s =
     (let g = takeWhile (\<lambda>c. \<not> is_quote c) s; r = dropWhile (\<lambda>c. \<not> is_quote c) s
      in if g = [] then None else (case quote1 r of None \<Rightarrow> None | Some r' \<Rightarrow> Some (g, r')))"

definition og_property_first :: "ustr \<Rightarrow> ustr option" where
  "og_property_first s =
     do {
       s1 \<leftarrow> lit_ci (ascii ''<meta'') s;
       s2 \<leftarrow> spaces1 s1;
       s3 \<leftarrow> lit_ci (ascii ''property='') s2;
       s4 \<leftarrow> quote1 s3;
       s5 \<leftarrow> lit_ci (ascii ''og:image'') s4;
       s6 \<leftarrow> quote1 s5;
       s7 \<leftarrow> spaces1 s6;
       s8 \<leftarrow> lit_ci (ascii ''content='') s7;
       s9 \<leftarrow> quote1 s8;
       (g, r) \<leftarrow> quoted_value s9;
       Some g
     }"

definition og_content_first :: "ustr \<Rightarrow> ustr option" where
  "og_content_first s =
     do {
       s1 \<leftarrow> lit_ci (ascii ''<meta'') s;
       s2 \<leftarrow> spaces1 s1;
       s3 \<leftarrow> lit_ci (ascii ''content='') s2;
       s4 \<leftarrow> quote1 s3;
       (g, s5) \<leftarrow> quoted_value s4;
       s6 \<leftarrow> spaces1 s5;
       s7 \<leftarrow> lit_ci (ascii ''property='') s6;
       s8 \<leftarrow> quote1 s7;
       s9 \<leftarrow> lit_ci (ascii ''og:image'') s8;
       s10 \<leftarrow> quote1 s9;
       Some g
     }"

text \<open>
  \<^verbatim>\<open>re.search\<close> tries the start positions from left to right and, at each, the two
  alternatives in order; the value is \<^verbatim>\<open>group(1) or group(2)\<close>.
\<close>

fun og_image_search :: "ustr \<Rightarrow> ustr option" where
  "og_image_search [] = None"
| "og_image_search (c # cs) =
     (case og_property_first (c # cs) of
        Some g \<Rightarrow> Some g
      | None \<Rightarrow>
          (case og_content_first (c # cs) of
             Some g \<Rightarrow> Some g
           | None \<Rightarrow> og_image_search cs))"

subsection \<open>The retry loop\<close>

text \<open>
  What one attempt meets: an exception anywhere inside the \<^verbatim>\<open>try\<close> block (building the
  request, opening the URL, the timeout, reading), or a response body, already decoded.
  The network is a function from the URL and the number of the attempt to that outcome.
\<close>

datatype response = Raised | Body ustr

type_synonym network = "ustr \<Rightarrow> nat \<Rightarrow> response"

text \<open>
  What a call did: the value returned, the arguments of the calls of \<^verbatim>\<open>time.sleep\<close> in
  order, and the number of attempts made.
\<close>

record fetch_result =
  fetched :: "ustr option"
  slept :: "nat list"
  tried :: nat

text \<open>
  \<^verbatim>\<open>markdown_to_ppt.fetch_og_image_from_url\<close>: the loop
  \<^verbatim>\<open>for attempt in range(max_retries)\<close> as recursion over the list of attempt numbers.
\<close>

fun ppt_fetch_loop ::
  "network \<Rightarrow> ustr \<Rightarrow> nat \<Rightarrow> nat \<Rightarrow> nat list \<Rightarrow> fetch_result \<Rightarrow> fetch_result" where
  "ppt_fetch_loop net url max_retries retry_delay [] st = st\<lparr>fetched := None\<rparr>"
| "ppt_fetch_loop net url max_retries retry_delay (attempt # rest) st =
     (case net url attempt of
        Body html_content \<Rightarrow>
          (case og_image_search html_content of
             Some g \<Rightarrow> st\<lparr>fetched := Some g, tried := Suc (tried st)\<rparr>
           | None \<Rightarrow> st\<lparr>fetched := None, tried := Suc (tried st)\<rparr>)
      | Raised \<Rightarrow>
          (if attempt < max_retries - 1
           then ppt_fetch_loop net url max_retries retry_delay rest
                  (st\<lparr>slept := slept st @ [retry_delay * 2 ^ attempt], tried := Suc (tried st)\<rparr>)
           else ppt_fetch_loop net url max_retries retry_delay rest
                  (st\<lparr>tried := Suc (tried st)\<rparr>)))"

definition ppt_fetch_og_image_from_url :: "network \<Rightarrow> ustr \<Rightarrow> nat \<Rightarrow> nat \<Rightarrow> fetch_result" where
  "ppt_fetch_og_image_from_url net url max_retries retry_delay =
     ppt_fetch_loop net url max_retries retry_delay [0..<max_retries]
       \<lparr>fetched = None, slept = [], tried = 0\<rparr>"

text \<open>
  \<^verbatim>\<open>markdown_to_pandoc.fetch_og_image_from_url\<close>: \<^verbatim>\<open>max_retries = 3\<close>,
  \<^verbatim>\<open>delays = [1, 2, 4]\<close>; a body without the tag falls out of the \<^verbatim>\<open>with\<close> block and the
  loop goes on to the next attempt.  \<^verbatim>\<open>delays[attempt]\<close> is read only under
  \<^verbatim>\<open>attempt < max_retries - 1\<close>, so the index is always in range.
\<close>

definition pandoc_delays :: "nat list" where
  "pandoc_delays = [1, 2, 4]"

fun pandoc_fetch_loop :: "network \<Rightarrow> ustr \<Rightarrow> nat list \<Rightarrow> fetch_result \<Rightarrow> fetch_result" where
  "pandoc_fetch_loop net url [] st = st\<lparr>fetched := None\<rparr>"
| "pandoc_fetch_loop net url (attempt # rest) st =
     (case net url attempt of
        Body html_content \<Rightarrow>
          (case og_image_search html_content of
             Some g \<Rightarrow> st\<lparr>fetched := Some g, tried := Suc (tried st)\<rparr>
           | None \<Rightarrow> pandoc_fetch_loop net url rest (st\<lparr>tried := Suc (tried st)\<rparr>))
      | Raised \<Rightarrow>
          (if attempt < 3 - 1
           then pandoc_fetch_loop net url rest
                  (st\<lparr>slept := slept st @ [pandoc_delays ! attempt], tried := Suc (tried st)\<rparr>)
           else pandoc_fetch_loop net url rest (st\<lparr>tried := Suc (tried st)\<rparr>)))"

definition pandoc_fetch_og_image_from_url :: "network \<Rightarrow> ustr \<Rightarrow> fetch_result" where
  "pandoc_fetch_og_image_from_url net url =
     pandoc_fetch_loop net url [0..<3] \<lparr>fetched = None, slept = [], tried = 0\<rparr>"

text \<open>Two networks: one where every attempt raises, one that answers with an empty page.\<close>

definition unreachable_net :: network where
  "unreachable_net url attempt = Raised"

definition blank_page_net :: network where
  "blank_page_net url attempt = Body []"

section \<open>Document extractor\<close>

subsection \<open>The searches\<close>

text \<open>
  \<^verbatim>\<open>re.search(r'^# (.+?)$', content, re.MULTILINE)\<close>.  The flag says whether the position
  is the start of the text or follows a newline, which is where \<^verbatim>\<open>^\<close> matches.  The dot
  does not match a newline and \<^verbatim>\<open>$\<close> matches only before a newline or at the end, so the
  lazy group is the rest of the line, which must not be empty.
\<close>

fun search_title :: "bool \<Rightarrow> ustr \<Rightarrow> ustr option" where
  "search_title bol [] = None"
| "search_title bol (c # cs) =
     (if bol \<and> startswith (c # cs) (ascii ''# '') \<and> line_rest (drop 2 (c # cs)) \<noteq> []
      then Some (line_rest (drop 2 (c # cs)))
      else search_title (c = NL) cs)"

text \<open>
  \<^verbatim>\<open>re.search(r'## Article Date\n(.+?)$', content, re.MULTILINE)\<close> and its siblings for
  \<^verbatim>\<open>Url\<close> and \<^verbatim>\<open>Image\<close>: the heading text with its newline anywhere in the text (the
  pattern is not anchored), followed by a line that is not empty.
\<close>

fun search_next_line :: "ustr \<Rightarrow> ustr \<Rightarrow> ustr option" where
  "search_next_line hdr [] = None"
| "search_next_line hdr (c # cs) =
     (if startswith (c # cs) hdr \<and> line_rest (drop (length hdr) (c # cs)) \<noteq> []
      then Some (line_rest (drop (length hdr) (c # cs)))
      else search_next_line hdr cs)"

definition article_date_header :: ustr where
  "article_date_header = ascii ''## Article Date'' @ [NL]"

definition article_url_header :: ustr where
  "article_url_header = ascii ''## Article Url'' @ [NL]"

definition article_image_header :: ustr where
  "article_image_header = ascii ''## Article Image'' @ [NL]"

definition article_content_header :: ustr where
  "article_content_header = ascii ''## Article Content'' @ [NL]"

text \<open>
  \<^verbatim>\<open>re.search(r'^\*\*Image:\*\*\s*(.+?)$', content, re.MULTILINE)\<close>.  After the label,
  \<^verbatim>\<open>\s*\<close> first takes the whole run of whitespace (newlines included) and then gives
  characters back one at a time until the group can start, that is, until a character
  other than a newline follows.
\<close>

definition image_label :: ustr where
  "image_label = ascii ''**Image:**''"

definition image_label_value :: "ustr \<Rightarrow> ustr option" where
  "image_label_value r =
     (case List.find (\<lambda>k. (case drop k r of [] \<Rightarrow> False | d # ds \<Rightarrow> d \<noteq> NL))
             (rev [0..<Suc (length (takeWhile is_space r))]) of
        None \<Rightarrow> None
      | Some k \<Rightarrow> Some (line_rest (drop k r)))"

fun search_image_label :: "bool \<Rightarrow> ustr \<Rightarrow> ustr option" where
  "search_image_label bol [] = None"
| "search_image_label bol (c # cs) =
     (if bol \<and> startswith (c # cs) image_label
      then (case image_label_value (drop (length image_label) (c # cs)) of
              Some g \<Rightarrow> Some g
            | None \<Rightarrow> search_image_label (c = NL) cs)
      else search_image_label (c = NL) cs)"

text \<open>\<^verbatim>\<open>re.search(r'\]\(([^)]+)\)', article_image)\<close>\<close>

fun search_paren_url :: "ustr \<Rightarrow> ustr option" where
  "search_paren_url [] = None"
| "search_paren_url (c # cs) =
     (if startswith (c # cs) (ascii '']('') \<and>
         takeWhile (\<lambda>x. x \<noteq> RPAREN) (drop 2 (c # cs)) \<noteq> [] \<and>
         startswith (dropWhile (\<lambda>x. x \<noteq> RPAREN) (drop 2 (c # cs))) (ascii '')'')
      then Some (takeWhile (\<lambda>x. x \<noteq> RPAREN) (drop 2 (c # cs)))
      else search_paren_url cs)"

text \<open>\<^verbatim>\<open>re.search(r'(https?://[^\s\]]+)', article_image)\<close>\<close>

definition url_run :: "ustr \<Rightarrow> ustr" where
  "url_run s = takeWhile (\<lambda>x. \<not> is_space x \<and> x \<noteq> RBRACK) s"

fun search_http_url :: "ustr \<Rightarrow> ustr option" where
  "search_http_url [] = None"
| "search_http_url (c # cs) =
     (if startswith (c # cs) (ascii ''https://'') \<and> url_run (drop 8 (c # cs)) \<noteq> []
      then Some (ascii ''https://'' @ url_run (drop 8 (c # cs)))
      else if startswith (c # cs) (ascii ''http://'') \<and> url_run (drop 7 (c # cs)) \<noteq> []
      then Some (ascii ''http://'' @ url_run (drop 7 (c # cs)))
      else search_http_url cs)"

text \<open>
  \<^verbatim>\<open>re.search(r'## Article Content\n((?:.|\n)+?)(?:^###|\Z)', content, re.MULTILINE)\<close> and
  the speaker-notes search of the slide-markup script have the same shape: a heading, a
  lazy group of at least one character of any kind, and a terminator that is either a
  marker at the start of a line or the end of the text.  \<open>lazy_block\<close> extends the group
  past its first character; \<open>prev\<close> is the character before the position.
\<close>

fun lazy_block :: "(ustr \<Rightarrow> bool) \<Rightarrow> nat \<Rightarrow> ustr \<Rightarrow> ustr" where
  "lazy_block stop prev [] = []"
| "lazy_block stop prev (c # cs) =
     (if prev = NL \<and> stop (c # cs) then [] else c # lazy_block stop c cs)"

fun search_block :: "ustr \<Rightarrow> (ustr \<Rightarrow> bool) \<Rightarrow> ustr \<Rightarrow> ustr option" where
  "search_block hdr stop [] = None"
| "search_block hdr stop (c # cs) =
     (if startswith (c # cs) hdr
      then (case drop (length hdr) (c # cs) of
              [] \<Rightarrow> search_block hdr stop cs
            | x # xs \<Rightarrow> Some (x # lazy_block stop x xs))
      else search_block hdr stop cs)"

text \<open>\<^verbatim>\<open>^###\<close>\<close>

definition level3_marker :: "ustr \<Rightarrow> bool" where
  "level3_marker s \<longleftrightarrow> startswith s (ascii ''###'')"

text \<open>\<^verbatim>\<open>^##[^#]|^##$\<close>\<close>

definition level2_marker :: "ustr \<Rightarrow> bool" where
  "level2_marker s \<longleftrightarrow>
     (startswith s (ascii ''##'') \<and> (case drop 2 s of [] \<Rightarrow> False | d # ds \<Rightarrow> d \<noteq> 35)) \<or>
     (startswith s (ascii ''##'') \<and> (case drop 2 s of [] \<Rightarrow> True | d # ds \<Rightarrow> d = NL))"

subsection \<open>Focal points\<close>

text \<open>The bullet literal of \<^verbatim>\<open>markdown_to_ppt.py\<close>: U+2022 and a space.\<close>

definition ppt_bullet :: ustr where
  "ppt_bullet = [8226, SP]"

text \<open>
  The bullet literal of \<^verbatim>\<open>markdown_to_pandoc.py\<close>: the file holds the bytes
  \<^verbatim>\<open>e2 80 9a c3 84 c2 a2 20\<close>, which are the three code points U+201A, U+00C4, U+00A2 and
  a space.
\<close>

definition pandoc_bullet :: ustr where
  "pandoc_bullet = [8218, 196, 162, SP]"

text \<open>
  The loop \<^verbatim>\<open>for line in points_text.strip().split('\n')\<close>, with the bullet literal as a
  parameter; \<open>acc\<close> is \<^verbatim>\<open>focal_points\<close>.
\<close>

fun focal_loop :: "ustr \<Rightarrow> ustr list \<Rightarrow> ustr list \<Rightarrow> ustr list" where
  "focal_loop bullet [] acc = acc"
| "focal_loop bullet (l # ls) acc =
     (let line = strip l in
      if line = [] then focal_loop bullet ls acc
      else if startswith line bullet \<or> startswith line (ascii ''- '')
      then focal_loop bullet ls (acc @ [strip (drop 2 line)])
      else if startswith line (ascii ''**'') \<and> contains (ascii ''**'') (drop 2 line)
      then focal_loop bullet ls (acc @ [line])
      else focal_loop bullet ls acc)"

definition extract_focal_points :: "ustr \<Rightarrow> ustr \<Rightarrow> ustr list" where
  "extract_focal_points bullet content =
     (case search_block article_content_header level3_marker content of
        None \<Rightarrow> []
      | Some points_text \<Rightarrow> focal_loop bullet (split_nl (strip points_text)) [])"

subsection \<open>The extracted record\<close>

record document =
  title :: ustr
  date :: ustr
  link :: ustr
  image_value :: ustr
  focal_points :: "ustr list"
  speaker_notes :: ustr

definition untitled :: ustr where
  "untitled = ascii ''Untitled''"

definition extract_title :: "ustr \<Rightarrow> ustr" where
  "extract_title content =
     (case search_title True content of Some g \<Rightarrow> g | None \<Rightarrow> untitled)"

definition extract_date :: "ustr \<Rightarrow> ustr" where
  "extract_date content =
     (case search_next_line article_date_header content of Some g \<Rightarrow> strip g | None \<Rightarrow> [])"

definition extract_link :: "ustr \<Rightarrow> ustr" where
  "extract_link content =
     (case search_next_line article_url_header content of Some g \<Rightarrow> strip g | None \<Rightarrow> [])"

text \<open>
  The value of \<^verbatim>\<open>article_image\<close> in \<^verbatim>\<open>markdown_to_ppt.parse_markdown_file\<close> before the
  fetch.  The \<^verbatim>\<open>elif\<close> branch repeats the search of the \<^verbatim>\<open>if\<close> branch.
\<close>

definition ppt_literal_image :: "ustr \<Rightarrow> ustr" where
  "ppt_literal_image content =
     (let image1 = (case search_next_line article_image_header content of
                      Some g \<Rightarrow> strip g | None \<Rightarrow> []);
          image2 = (if image1 = []
                    then (case search_image_label True content of
                            Some g \<Rightarrow> strip g | None \<Rightarrow> image1)
                    else image1)
      in if image2 \<noteq> []
         then (let image3 =
                     (if contains (ascii ''['') image2 \<and> contains (ascii ''](http'') image2
                      then (case search_paren_url image2 of Some u \<Rightarrow> u | None \<Rightarrow> image2)
                      else if contains (ascii ''!['') image2 \<and> contains (ascii ''](http'') image2
                      then (case search_paren_url image2 of Some u \<Rightarrow> u | None \<Rightarrow> image2)
                      else image2)
               in (case search_http_url image3 of Some u \<Rightarrow> u | None \<Rightarrow> image3))
         else image2)"

text \<open>The same value in \<^verbatim>\<open>markdown_to_pandoc.parse_markdown_file\<close>.\<close>

definition pandoc_literal_image :: "ustr \<Rightarrow> ustr" where
  "pandoc_literal_image content =
     (case search_next_line article_image_header content of Some g \<Rightarrow> strip g | None \<Rightarrow> [])"

text \<open>
  \<^verbatim>\<open>if article_link: fetched_image = fetch(...); if fetched_image: article_image = fetched_image\<close>,
  given what the fetch returned; the second test is false for \<^verbatim>\<open>None\<close> and for the empty
  string.
\<close>

definition resolve_image :: "ustr \<Rightarrow> ustr option \<Rightarrow> ustr \<Rightarrow> ustr" where
  "resolve_image article_link fetched_image article_image =
     (if article_link \<noteq> []
      then (case fetched_image of
              Some g \<Rightarrow> (if g \<noteq> [] then g else article_image)
            | None \<Rightarrow> article_image)
      else article_image)"

text \<open>Speaker notes of \<^verbatim>\<open>markdown_to_ppt.py\<close>: two language headings, found by \<^verbatim>\<open>str.find\<close>.\<close>

definition italian_header :: ustr where
  "italian_header = ascii ''### **Speaker Notes (Italian)**:''"

definition english_header :: ustr where
  "english_header = ascii ''### **Speaker Notes (English)**:''"

definition main_section :: ustr where
  "main_section = [NL] @ ascii ''## ''"

definition ppt_speaker_notes :: "ustr \<Rightarrow> ustr" where
  "ppt_speaker_notes content =
     (let italian_pos = find_str content italian_header 0;
          english_pos = find_str content english_header 0;
          notes1 =
            (case italian_pos of
               None \<Rightarrow> []
             | Some ip \<Rightarrow>
                 (let italian_start = ip + length italian_header;
                      italian_end =
                        (case english_pos of
                           Some ep \<Rightarrow> ep
                         | None \<Rightarrow>
                             (case find_str content main_section italian_start of
                                Some e \<Rightarrow> e
                              | None \<Rightarrow> length content));
                      italian_notes = strip (slice content italian_start italian_end)
                  in if italian_notes \<noteq> []
                     then ascii ''**Italian Notes:**'' @ [NL] @ italian_notes @ [NL, NL]
                     else []));
          notes2 =
            (case english_pos of
               None \<Rightarrow> notes1
             | Some ep \<Rightarrow>
                 (let english_start = ep + length english_header;
                      english_end =
                        (case find_str content main_section english_start of
                           Some e \<Rightarrow> e
                         | None \<Rightarrow> length content);
                      english_notes = strip (slice content english_start english_end)
                  in if english_notes \<noteq> []
                     then notes1 @ ascii ''**English Notes:**'' @ [NL] @ english_notes
                     else notes1))
      in strip notes2)"

text \<open>
  Speaker notes of \<^verbatim>\<open>markdown_to_pandoc.py\<close>:
  \<^verbatim>\<open>re.search(r'### Speaker Notes\n((?:.|\n)+?)(?:^##[^#]|^##$|\Z)', content, re.MULTILINE)\<close>.
\<close>

definition speaker_notes_header :: ustr where
  "speaker_notes_header = ascii ''### Speaker Notes'' @ [NL]"

definition pandoc_speaker_notes :: "ustr \<Rightarrow> ustr" where
  "pandoc_speaker_notes content =
     (case search_block speaker_notes_header level2_marker content of
        Some g \<Rightarrow> strip g
      | None \<Rightarrow> [])"

text \<open>
  \<^verbatim>\<open>parse_markdown_file\<close> opens and reads the file before anything else; that is the one
  place where it can raise.  The text read is the input of everything after it.
\<close>

datatype source_file = Unreadable | Readable ustr

datatype read_error = ReadError

definition ppt_extract :: "network \<Rightarrow> ustr \<Rightarrow> document" where
  "ppt_extract net content =
     \<lparr>title = extract_title content,
      date = extract_date content,
      link = extract_link content,
      image_value =
        resolve_image (extract_link content)
          (fetched (ppt_fetch_og_image_from_url net (extract_link content) 3 1))
          (ppt_literal_image content),
      focal_points = extract_focal_points ppt_bullet content,
      speaker_notes = ppt_speaker_notes content\<rparr>"

definition ppt_parse_markdown_file :: "network \<Rightarrow> source_file \<Rightarrow> read_error + document" where
  "ppt_parse_markdown_file net f =
     (case f of Unreadable \<Rightarrow> Inl ReadError | Readable content \<Rightarrow> Inr (ppt_extract net content))"

definition pandoc_extract :: "network \<Rightarrow> ustr \<Rightarrow> document" where
  "pandoc_extract net content =
     \<lparr>title = extract_title content,
      date = extract_date content,
      link = extract_link content,
      image_value =
        resolve_image (extract_link content)
          (fetched (pandoc_fetch_og_image_from_url net (extract_link content)))
          (pandoc_literal_image content),
      focal_points = extract_focal_points pandoc_bullet content,
      speaker_notes = pandoc_speaker_notes content\<rparr>"

definition pandoc_parse_markdown_file :: "network \<Rightarrow> source_file \<Rightarrow> read_error + document" where
  "pandoc_parse_markdown_file net f =
     (case f of Unreadable \<Rightarrow> Inl ReadError
      | Readable content \<Rightarrow> Inr (pandoc_extract net content))"

subsection \<open>The cover slide's use of the image\<close>

definition changelog_index :: ustr where
  "changelog_index = ascii ''https://github.blog/changelog/''"

text \<open>\<^verbatim>\<open>os.path.basename\<close> (POSIX): what follows the last slash.\<close>

definition basename :: "ustr \<Rightarrow> ustr" where
  "basename p = rev (takeWhile (\<lambda>c. c \<noteq> 47) (rev p))"

text \<open>\<^verbatim>\<open>markdown_to_pandoc.create_cover_slide_markdown\<close>; the date is not used.\<close>

definition create_cover_slide_markdown :: "ustr \<Rightarrow> ustr \<Rightarrow> ustr \<Rightarrow> ustr" where
  "create_cover_slide_markdown title_text image_url date_text =
     (if image_url \<noteq> [] \<and> image_url \<noteq> changelog_index
      then ascii ''# '' @ title_text @ [NL, NL] @
           ascii ''![](./media/'' @ basename image_url @ ascii ''){.background}'' @ [NL, NL]
      else ascii ''# '' @ title_text @ [NL, NL]) @
     ascii ''---'' @ [NL, NL]"

text \<open>
  The test of \<^verbatim>\<open>markdown_to_ppt.create_cover_slide\<close> that guards the download of the
  background image.
\<close>

definition cover_downloads_image :: "ustr \<Rightarrow> bool" where
  "cover_downloads_image image_url \<longleftrightarrow> image_url \<noteq> [] \<and> image_url \<noteq> changelog_index"

section \<open>Inline formatter\<close>

subsection \<open>The token pattern\<close>

text \<open>
  \<^verbatim>\<open>pattern = r'(\*\*[^*]+\*\*|_[^_]+_|\*[^*]+\*|`[^`]+`|~~[^~]+~~|\[[^\]]+\]\([^)]+\)|'
           r'[^*_`~\[](?:[^*_`~\[]*[^*_`~\[\s])?)'\<close>

  Every alternative reads forward only, so whether it matches at a position, and how far,
  depends on the text from that position on.  Each alternative is a function from that
  text to the length of the match.

  The first five alternatives are a marker, a greedy run of characters other than the
  marker's character, and the marker again.  The run cannot stop early: before its end
  the next character is not the marker's.
\<close>

definition delimited :: "ustr \<Rightarrow> nat \<Rightarrow> ustr \<Rightarrow> nat option" where
  "delimited m d s =
     (if startswith s m \<and>
         takeWhile (\<lambda>c. c \<noteq> d) (drop (length m) s) \<noteq> [] \<and>
         startswith (dropWhile (\<lambda>c. c \<noteq> d) (drop (length m) s)) m
      then Some (length m + length (takeWhile (\<lambda>c. c \<noteq> d) (drop (length m) s)) + length m)
      else None)"

text \<open>
  \<^verbatim>\<open>\[([^\]]+)\]\(([^)]+)\)\<close>: the link text, the target and the length of the match.
\<close>

definition link_parts :: "ustr \<Rightarrow> (ustr \<times> ustr \<times> nat) option" where
  "link_parts s =
     (case s of
        [] \<Rightarrow> None
      | c # cs \<Rightarrow>
          (let g = takeWhile (\<lambda>x. x \<noteq> RBRACK) cs;
               r = dropWhile (\<lambda>x. x \<noteq> RBRACK) cs;
               u = takeWhile (\<lambda>x. x \<noteq> RPAREN) (drop 2 r);
               r' = dropWhile (\<lambda>x. x \<noteq> RPAREN) (drop 2 r)
           in if c = LBRACK \<and> g \<noteq> [] \<and> startswith r [RBRACK, LPAREN] \<and> u \<noteq> [] \<and>
                 startswith r' [RPAREN]
              then Some (g, u, length g + length u + 4)
              else None))"

definition is_delim :: "nat \<Rightarrow> bool" where
  "is_delim c \<longleftrightarrow> c = STAR \<or> c = USCORE \<or> c = BTICK \<or> c = TILDE \<or> c = LBRACK"

text \<open>
  \<^verbatim>\<open>[^*_`~\[](?:[^*_`~\[]*[^*_`~\[\s])?\<close>: one character that is no delimiter, then, if
  possible, the longest stretch of such characters that ends in one that is not
  whitespace.
\<close>

definition plain_run :: "ustr \<Rightarrow> nat option" where
  "plain_run s =
     (case s of
        [] \<Rightarrow> None
      | c # cs \<Rightarrow>
          (if is_delim c then None
           else Some (Suc (length (rstrip (takeWhile (\<lambda>x. \<not> is_delim x) cs))))))"

definition orelse :: "'a option \<Rightarrow> 'a option \<Rightarrow> 'a option" where
  "orelse a b = (case a of Some x \<Rightarrow> Some x | None \<Rightarrow> b)"

text \<open>The six alternatives that carry a style, in the pattern's order.\<close>

definition styled_match :: "ustr \<Rightarrow> nat option" where
  "styled_match s =
     orelse (delimited [STAR, STAR] STAR s)
    (orelse (delimited [USCORE] USCORE s)
    (orelse (delimited [STAR] STAR s)
    (orelse (delimited [BTICK] BTICK s)
    (orelse (delimited [TILDE, TILDE] TILDE s)
            (map_option (\<lambda>(g, u, n). n) (link_parts s))))))"

definition pattern_match :: "ustr \<Rightarrow> nat option" where
  "pattern_match s = orelse (styled_match s) (plain_run s)"

text \<open>
  \<^verbatim>\<open>re.finditer(pattern, line)\<close>: the spans \<^verbatim>\<open>(match.start(), match.end())\<close> of the
  matches, found from left to right; after a match the search goes on at its end, and
  where nothing matches it moves one character on.  No alternative matches the empty
  string, so a match of length \<open>n\<close> at \<open>c # cs\<close> leaves \<open>drop (n - 1) cs\<close>.
\<close>

fun scan_matches :: "nat \<Rightarrow> ustr \<Rightarrow> (nat \<times> nat) list" where
  "scan_matches pos [] = []"
| "scan_matches pos (c # cs) =
     (case pattern_match (c # cs) of
        None \<Rightarrow> scan_matches (Suc pos) cs
      | Some n \<Rightarrow> (pos, pos + n) # scan_matches (pos + n) (drop (n - 1) cs))"

definition finditer :: "ustr \<Rightarrow> (nat \<times> nat) list" where
  "finditer line = scan_matches 0 line"

subsection \<open>Tokens\<close>

datatype token_type = Plain | Markdown

type_synonym token = "token_type \<times> ustr"

text \<open>
  The loop \<^verbatim>\<open>for match in re.finditer(pattern, line)\<close>; the state is \<^verbatim>\<open>tokens\<close> and
  \<^verbatim>\<open>last_end\<close>.
\<close>

fun collect_tokens :: "ustr \<Rightarrow> (nat \<times> nat) list \<Rightarrow> token list \<Rightarrow> nat \<Rightarrow> token list \<times> nat" where
  "collect_tokens line [] tokens last_end = (tokens, last_end)"
| "collect_tokens line ((start, end) # ms) tokens last_end =
     collect_tokens line ms
       ((if start > last_end then tokens @ [(Plain, slice line last_end start)] else tokens) @
        [(Markdown, slice line start end)])
       end"

definition line_tokens :: "ustr \<Rightarrow> token list" where
  "line_tokens line =
     (case collect_tokens line (finditer line) [] 0 of
        (tokens, last_end) \<Rightarrow>
          (let tokens' = (if last_end < length line
                          then tokens @ [(Plain, drop last_end line)] else tokens)
           in if tokens' = [] then [(Plain, line)] else tokens'))"

subsection \<open>Runs\<close>

text \<open>
  A run of a paragraph: its text and what the code sets on it (\<^verbatim>\<open>font.bold\<close>,
  \<^verbatim>\<open>font.italic\<close>, the fixed-width font, \<^verbatim>\<open>font.strikethrough\<close>, and the address of the
  hyperlink, which comes with the blue underlined face).
\<close>

record run =
  run_text :: ustr
  bold :: bool
  italic :: bool
  monospace :: bool
  strikethrough :: bool
  hyperlink :: "ustr option"

definition plain_token_run :: "ustr \<Rightarrow> run" where
  "plain_token_run token =
     \<lparr>run_text = token, bold = False, italic = False, monospace = False,
      strikethrough = False, hyperlink = None\<rparr>"

definition is_bold :: "ustr \<Rightarrow> bool" where
  "is_bold token \<longleftrightarrow> startswith token [STAR, STAR] \<and> endswith token [STAR, STAR]"

definition is_italic :: "ustr \<Rightarrow> bool" where
  "is_italic token \<longleftrightarrow>
     (startswith token [USCORE] \<and> endswith token [USCORE]) \<or>
     (startswith token [STAR] \<and> endswith token [STAR] \<and> \<not> startswith token [STAR, STAR])"

definition is_code :: "ustr \<Rightarrow> bool" where
  "is_code token \<longleftrightarrow> startswith token [BTICK] \<and> endswith token [BTICK]"

definition is_strikethrough :: "ustr \<Rightarrow> bool" where
  "is_strikethrough token \<longleftrightarrow> startswith token [TILDE, TILDE] \<and> endswith token [TILDE, TILDE]"

definition is_link :: "ustr \<Rightarrow> bool" where
  "is_link token \<longleftrightarrow> startswith token [LBRACK] \<and> contains [RBRACK, LPAREN] token"

text \<open>
  \<^verbatim>\<open>clean_text\<close>: \<^verbatim>\<open>token[2:-2]\<close>, \<^verbatim>\<open>token[1:-1]\<close>, the first group of
  \<^verbatim>\<open>re.match(r'\[([^\]]+)\]\(([^)]+)\)', token)\<close>, or the token.
\<close>

definition clean_text :: "ustr \<Rightarrow> ustr" where
  "clean_text token =
     (if is_bold token then slice token 2 (length token - 2)
      else if is_italic token then slice token 1 (length token - 1)
      else if is_code token then slice token 1 (length token - 1)
      else if is_strikethrough token then slice token 2 (length token - 2)
      else if is_link token
      then (case link_parts token of Some (g, u, n) \<Rightarrow> g | None \<Rightarrow> token)
      else token)"

text \<open>
  \<^verbatim>\<open>link_url\<close> is assigned in the \<^verbatim>\<open>elif is_link\<close> branch and read under \<^verbatim>\<open>if is_link\<close>.
  A token for which \<^verbatim>\<open>is_link\<close> holds starts with a bracket, so none of the four tests
  before it holds and the branch that assigns is the one taken.
\<close>

definition link_url :: "ustr \<Rightarrow> ustr" where
  "link_url token = (case link_parts token of Some (g, u, n) \<Rightarrow> u | None \<Rightarrow> [])"

definition markdown_token_run :: "ustr \<Rightarrow> run" where
  "markdown_token_run token =
     \<lparr>run_text = clean_text token,
      bold = is_bold token,
      italic = is_italic token,
      monospace = is_code token,
      strikethrough = is_strikethrough token,
      hyperlink = (if is_link token then Some (link_url token) else None)\<rparr>"

text \<open>The loop \<^verbatim>\<open>for token_type, token in tokens\<close>.\<close>

fun token_runs :: "token list \<Rightarrow> run list" where
  "token_runs [] = []"
| "token_runs ((token_type, token) # ts) =
     (if strip token = [] \<and> token_type = Plain then token_runs ts
      else (case token_type of
              Markdown \<Rightarrow> markdown_token_run token
            | Plain \<Rightarrow> plain_token_run token) # token_runs ts)"

definition line_runs :: "ustr \<Rightarrow> run list" where
  "line_runs line = token_runs (line_tokens line)"

subsection \<open>Paragraphs\<close>

text \<open>
  The text frame is the list of its paragraphs, each the list of its runs.  After
  \<^verbatim>\<open>text_frame.clear()\<close> it holds one paragraph without runs.  The loop
  \<^verbatim>\<open>for line in lines\<close> carries \<^verbatim>\<open>first_paragraph\<close> and the paragraphs.
\<close>

fun format_lines :: "ustr list \<Rightarrow> bool \<Rightarrow> run list list \<Rightarrow> run list list" where
  "format_lines [] first_paragraph paragraphs = paragraphs"
| "format_lines (line # ls) first_paragraph paragraphs =
     (if strip line = []
      then (if \<not> first_paragraph then format_lines ls first_paragraph (paragraphs @ [[]])
            else format_lines ls first_paragraph paragraphs)
      else if first_paragraph
      then (case paragraphs of
              p # ps \<Rightarrow> format_lines ls False ((p @ line_runs line) # ps)
            | [] \<Rightarrow> format_lines ls False [line_runs line])
      else format_lines ls False (paragraphs @ [line_runs line]))"

definition parse_markdown_formatting :: "ustr \<Rightarrow> run list list" where
  "parse_markdown_formatting text_with_markdown =
     format_lines (split_nl text_with_markdown) True [[]]"

text \<open>All runs of the frame, in order.\<close>

definition spans :: "ustr \<Rightarrow> run list" where
  "spans text_with_markdown = concat (parse_markdown_formatting text_with_markdown)"

definition unstyled :: "run \<Rightarrow> bool" where
  "unstyled r \<longleftrightarrow>
     \<not> bold r \<and> \<not> italic r \<and> \<not> monospace r \<and> \<not> strikethrough r \<and> hyperlink r = None"

section \<open>Notions used in the statements\<close>

subsection \<open>Tokens without indices\<close>

text \<open>
  The tokens of a line computed in one pass: \<open>gap\<close> collects the characters since the
  last match.  \<open>line_tokens_direct\<close> below shows that this is what the search and the loop of the
  code compute.
\<close>

function direct_tokens :: "ustr \<Rightarrow> ustr \<Rightarrow> token list" where
  "direct_tokens gap [] = (if gap = [] then [] else [(Plain, gap)])"
| "direct_tokens gap (c # cs) =
     (case pattern_match (c # cs) of
        None \<Rightarrow> direct_tokens (gap @ [c]) cs
      | Some n \<Rightarrow>
          (if gap = [] then [] else [(Plain, gap)]) @ [(Markdown, take n (c # cs))] @
          direct_tokens [] (drop (n - 1) cs))"
  by pat_completeness auto
termination
  by (relation "measure (\<lambda>(gap, s). length s)") auto

definition flush :: "ustr \<Rightarrow> token list" where
  "flush gap = (if gap = [] then [] else [(Plain, gap)])"

text \<open>The run that the loop over the tokens makes of a token it keeps.\<close>

definition render :: "token \<Rightarrow> run" where
  "render tk = (case tk of (Markdown, t) \<Rightarrow> markdown_token_run t | (Plain, t) \<Rightarrow> plain_token_run t)"


subsection \<open>Removing markers\<close>



subsection \<open>Lines of a document\<close>

text \<open>A level-1 heading line: one \<^verbatim>\<open>#\<close>, a space, and text.\<close>

definition heading1 :: "ustr \<Rightarrow> bool" where
  "heading1 l \<longleftrightarrow> startswith l (ascii ''# '') \<and> 2 < length l"

text \<open>The text of the first level-1 heading line among the lines.\<close>

definition first_heading :: "ustr list \<Rightarrow> ustr option" where
  "first_heading ls = map_option (drop 2) (List.find heading1 ls)"

text \<open>
  What a line of the Article Content block contributes: a bullet line its remainder, a
  line with a bold lead-in itself, any other line nothing; all after trimming.
\<close>

definition focal_of_line :: "ustr \<Rightarrow> ustr \<Rightarrow> ustr list" where
  "focal_of_line bullet l =
     (if startswith (strip l) bullet \<or> startswith (strip l) (ascii ''- '')
      then [strip (drop 2 (strip l))]
      else if startswith (strip l) (ascii ''**'') \<and> contains (ascii ''**'') (drop 2 (strip l))
      then [strip l]
      else [])"

subsection \<open>Documents and pages for the concrete cases\<close>

definition og_page :: ustr where
  "og_page =
     ascii ''<html><head><meta property='' @ [34] @ ascii ''og:image'' @ [34] @
     ascii '' content='' @ [34] @ ascii ''https://github.blog/og.png'' @ [34] @
     ascii ''></head></html>''"

definition og_page_net :: network where
  "og_page_net url attempt = Body og_page"

definition scenario :: ustr where
  "scenario =
     ascii ''# Hello'' @ [NL] @ ascii ''## Article Date'' @ [NL] @ ascii ''2025-01-01'' @ [NL] @
     ascii ''## Article Content'' @ [NL] @ ascii ''- point one'' @ [NL] @
     ascii ''- point two'' @ [NL] @ ascii ''### Speaker Notes'' @ [NL] @ ascii ''Note body''"

definition bullet_document :: ustr where
  "bullet_document =
     ascii ''## Article Content'' @ [NL] @ [8226, SP] @ ascii ''one'' @ [NL] @ ascii ''- two''"

definition linked_document :: ustr where
  "linked_document =
     ascii ''## Article Url'' @ [NL] @ ascii ''https://github.blog/x'' @ [NL] @
     ascii ''## Article Image'' @ [NL] @ ascii ''https://github.blog/lit.png''"

definition two_headings :: ustr where
  "two_headings = ascii ''intro'' @ [NL] @ ascii ''# Hello '' @ [NL] @ ascii ''# Second''"

section \<open>The retry policy\<close>

lemma upt3: "[0..<3] = [0, Suc 0, 2]"
  by (simp add: upt_rec)

lemma upt_0_2: "[0..<2] = [0, Suc 0]"
  by (simp add: upt_rec)

lemma less3: "(\<forall>a<3. P a) \<longleftrightarrow> P 0 \<and> P (Suc 0) \<and> P (2::nat)"
  by (auto simp: numeral_3_eq_3 numeral_2_eq_2 less_Suc_eq)

text \<open>With three attempts the loop of the presentation script unrolls to this table.\<close>

lemma ppt_fetch_cases:
  "ppt_fetch_og_image_from_url net url 3 1 =
     (case net url 0 of
        Body h \<Rightarrow> \<lparr>fetched = og_image_search h, slept = [], tried = 1\<rparr>
      | Raised \<Rightarrow>
         (case net url (Suc 0) of
            Body h \<Rightarrow> \<lparr>fetched = og_image_search h, slept = [1], tried = 2\<rparr>
          | Raised \<Rightarrow>
             (case net url 2 of
                Body h \<Rightarrow> \<lparr>fetched = og_image_search h, slept = [1, 2], tried = 3\<rparr>
              | Raised \<Rightarrow> \<lparr>fetched = None, slept = [1, 2], tried = 3\<rparr>)))"
  by (simp add: ppt_fetch_og_image_from_url_def upt3 split: response.splits option.splits)

text \<open>The loop of the slide-markup script goes on after a page without the tag.\<close>

lemma pandoc_fetch_cases:
  "pandoc_fetch_og_image_from_url net url =
     (case net url 0 of
        Body h0 \<Rightarrow>
         (case og_image_search h0 of
            Some g \<Rightarrow> \<lparr>fetched = Some g, slept = [], tried = 1\<rparr>
          | None \<Rightarrow>
             (case net url (Suc 0) of
                Body h1 \<Rightarrow>
                 (case og_image_search h1 of
                    Some g \<Rightarrow> \<lparr>fetched = Some g, slept = [], tried = 2\<rparr>
                  | None \<Rightarrow>
                     (case net url 2 of
                        Body h2 \<Rightarrow> \<lparr>fetched = og_image_search h2, slept = [], tried = 3\<rparr>
                      | Raised \<Rightarrow> \<lparr>fetched = None, slept = [], tried = 3\<rparr>))
              | Raised \<Rightarrow>
                 (case net url 2 of
                    Body h2 \<Rightarrow> \<lparr>fetched = og_image_search h2, slept = [2], tried = 3\<rparr>
                  | Raised \<Rightarrow> \<lparr>fetched = None, slept = [2], tried = 3\<rparr>)))
      | Raised \<Rightarrow>
         (case net url (Suc 0) of
            Body h1 \<Rightarrow>
             (case og_image_search h1 of
                Some g \<Rightarrow> \<lparr>fetched = Some g, slept = [1], tried = 2\<rparr>
              | None \<Rightarrow>
                 (case net url 2 of
                    Body h2 \<Rightarrow> \<lparr>fetched = og_image_search h2, slept = [1], tried = 3\<rparr>
                  | Raised \<Rightarrow> \<lparr>fetched = None, slept = [1], tried = 3\<rparr>))
          | Raised \<Rightarrow>
             (case net url 2 of
                Body h2 \<Rightarrow> \<lparr>fetched = og_image_search h2, slept = [1, 2], tried = 3\<rparr>
              | Raised \<Rightarrow> \<lparr>fetched = None, slept = [1, 2], tried = 3\<rparr>)))"
  by (simp add: pandoc_fetch_og_image_from_url_def pandoc_delays_def upt3
      split: response.splits option.splits)

lemma ppt_fetch_policy:
  "tried (ppt_fetch_og_image_from_url net url 3 1) \<le> 3 \<and>
   slept (ppt_fetch_og_image_from_url net url 3 1) =
     map (\<lambda>a. 2 ^ a) (filter (\<lambda>a. a < 2 \<and> net url a = Raised)
       [0..<tried (ppt_fetch_og_image_from_url net url 3 1)]) \<and>
   ((\<forall>a<3. net url a = Raised) \<longrightarrow>
      ppt_fetch_og_image_from_url net url 3 1 = \<lparr>fetched = None, slept = [1, 2], tried = 3\<rparr>)"
  unfolding ppt_fetch_cases less3
  by (simp add: upt3 upt_0_2 split: response.splits)

lemma pandoc_fetch_policy:
  "tried (pandoc_fetch_og_image_from_url net url) \<le> 3 \<and>
   slept (pandoc_fetch_og_image_from_url net url) =
     map (\<lambda>a. 2 ^ a) (filter (\<lambda>a. a < 2 \<and> net url a = Raised)
       [0..<tried (pandoc_fetch_og_image_from_url net url)]) \<and>
   ((\<forall>a<3. net url a = Raised) \<longrightarrow>
      pandoc_fetch_og_image_from_url net url = \<lparr>fetched = None, slept = [1, 2], tried = 3\<rparr>)"
  unfolding pandoc_fetch_cases less3
  by (simp add: upt3 upt_0_2 split: response.splits option.splits)

text \<open>
  C1, as the code has it.  In both scripts a call makes at most three attempts.  A wait
  follows an attempt exactly when that attempt raised and was the first or the second: it
  lasts 1 unit after the first attempt and 2 units after the second, and nothing is waited
  after the third attempt or after a page without the tag.  When all three attempts raise,
  the call returns \<open>None\<close> after three attempts and waits of 1 and 2 units.  The functions
  are total: every exception of an attempt is the outcome \<open>Raised\<close>, which the loop
  handles.
\<close>

theorem fetch_retry_policy:
  "tried (ppt_fetch_og_image_from_url net url 3 1) \<le> 3 \<and>
   slept (ppt_fetch_og_image_from_url net url 3 1) =
     map (\<lambda>a. 2 ^ a) (filter (\<lambda>a. a < 2 \<and> net url a = Raised)
       [0..<tried (ppt_fetch_og_image_from_url net url 3 1)]) \<and>
   ((\<forall>a<3. net url a = Raised) \<longrightarrow>
      ppt_fetch_og_image_from_url net url 3 1 = \<lparr>fetched = None, slept = [1, 2], tried = 3\<rparr>) \<and>
   tried (pandoc_fetch_og_image_from_url net url) \<le> 3 \<and>
   slept (pandoc_fetch_og_image_from_url net url) =
     map (\<lambda>a. 2 ^ a) (filter (\<lambda>a. a < 2 \<and> net url a = Raised)
       [0..<tried (pandoc_fetch_og_image_from_url net url)]) \<and>
   ((\<forall>a<3. net url a = Raised) \<longrightarrow>
      pandoc_fetch_og_image_from_url net url = \<lparr>fetched = None, slept = [1, 2], tried = 3\<rparr>)"
  using ppt_fetch_policy[of net url] pandoc_fetch_policy[of net url] by blast

theorem fetch_retry_policy_witness:
  "unreachable_net (ascii ''https://github.blog/a'') 0 = Raised \<and>
   unreachable_net (ascii ''https://github.blog/a'') 1 = Raised \<and>
   unreachable_net (ascii ''https://github.blog/a'') 2 = Raised \<and>
   ppt_fetch_og_image_from_url unreachable_net (ascii ''https://github.blog/a'') 3 1 =
     \<lparr>fetched = None, slept = [1, 2], tried = 3\<rparr> \<and>
   pandoc_fetch_og_image_from_url unreachable_net (ascii ''https://github.blog/a'') =
     \<lparr>fetched = None, slept = [1, 2], tried = 3\<rparr>"
  using fetch_retry_policy[of unreachable_net "ascii ''https://github.blog/a''"]
  by (simp add: unreachable_net_def)

text \<open>
  C1 as stated fails: after three attempts that raise, \<open>None\<close> comes back after waits of
  1 and 2 units, which is not \<open>1 + 2 + 4\<close>; and the presentation script returns \<open>None\<close>
  after a single attempt, without any wait, when the page has no tag.
\<close>

theorem fetch_backoff_counterexample:
  "fetched (ppt_fetch_og_image_from_url unreachable_net (ascii ''https://github.blog/a'') 3 1) = None \<and>
   sum_list (slept (ppt_fetch_og_image_from_url unreachable_net (ascii ''https://github.blog/a'') 3 1))
     \<noteq> 1 + 2 + 4 \<and>
   ppt_fetch_og_image_from_url blank_page_net (ascii ''https://github.blog/a'') 3 1 =
     \<lparr>fetched = None, slept = [], tried = 1\<rparr>"
  unfolding ppt_fetch_cases by (simp add: unreachable_net_def blank_page_net_def)

section \<open>The inline formatter\<close>

lemma startswith_length: "startswith s m \<Longrightarrow> length m \<le> length s"
proof -
  assume "startswith s m"
  then have "length (take (length m) s) = length m" by (simp add: startswith_def)
  then show ?thesis by simp
qed

lemma takeWhile_dropWhile_length: "length (takeWhile P t) + length (dropWhile P t) = length t"
  by (metis length_append takeWhile_dropWhile_id)

lemma delimited_bounds:
  assumes "delimited m d s = Some n"
  shows "n \<le> length s" and "0 < n"
proof -
  let ?t = "drop (length m) s"
  let ?g = "takeWhile (\<lambda>c. c \<noteq> d) ?t"
  let ?r = "dropWhile (\<lambda>c. c \<noteq> d) ?t"
  from assms have sm: "startswith s m" and g: "?g \<noteq> []" and rm: "startswith ?r m"
    and n: "n = length m + length ?g + length m"
    by (auto simp: delimited_def split: if_splits)
  have 1: "length m \<le> length s" using sm by (rule startswith_length)
  have 2: "length m \<le> length ?r" using rm by (rule startswith_length)
  have 3: "length ?g + length ?r = length ?t" by (rule takeWhile_dropWhile_length)
  have 4: "length ?t = length s - length m" by simp
  from 1 2 3 4 n show "n \<le> length s" by linarith
  from g n show "0 < n" by simp
qed

lemma link_parts_bounds:
  assumes "link_parts s = Some (g, u, n)"
  shows "n \<le> length s" and "0 < n"
proof -
  from assms obtain c cs where s: "s = c # cs" by (cases s) (auto simp: link_parts_def)
  let ?r = "dropWhile (\<lambda>x. x \<noteq> RBRACK) cs"
  let ?r' = "dropWhile (\<lambda>x. x \<noteq> RPAREN) (drop 2 ?r)"
  from assms s have g: "g = takeWhile (\<lambda>x. x \<noteq> RBRACK) cs"
    and u: "u = takeWhile (\<lambda>x. x \<noteq> RPAREN) (drop 2 ?r)"
    and r: "startswith ?r [RBRACK, LPAREN]" and r': "startswith ?r' [RPAREN]"
    and n: "n = length g + length u + 4"
    by (auto simp: link_parts_def Let_def split: if_splits)
  have 1: "length g + length ?r = length cs" unfolding g by (rule takeWhile_dropWhile_length)
  have 2: "2 \<le> length ?r" using startswith_length[OF r] by simp
  have 3: "length u + length ?r' = length (drop 2 ?r)"
    unfolding u by (rule takeWhile_dropWhile_length)
  have 4: "1 \<le> length ?r'" using startswith_length[OF r'] by simp
  have 5: "length (drop 2 ?r) = length ?r - 2" by simp
  from 1 2 3 4 5 n s show "n \<le> length s" by simp
  from n show "0 < n" by simp
qed

lemma rstrip_length: "length (rstrip s) \<le> length s"
  unfolding rstrip_def by (metis length_dropWhile_le length_rev)

lemma plain_run_bounds:
  assumes "plain_run s = Some n"
  shows "n \<le> length s" and "0 < n"
proof -
  from assms obtain c cs where s: "s = c # cs" by (cases s) (auto simp: plain_run_def)
  from assms s have n: "n = Suc (length (rstrip (takeWhile (\<lambda>x. \<not> is_delim x) cs)))"
    by (auto simp: plain_run_def split: if_splits)
  have "length (rstrip (takeWhile (\<lambda>x. \<not> is_delim x) cs)) \<le> length cs"
    using rstrip_length[of "takeWhile (\<lambda>x. \<not> is_delim x) cs"] length_takeWhile_le[of "\<lambda>x. \<not> is_delim x" cs]
    by linarith
  with n s show "n \<le> length s" by simp
  from n show "0 < n" by simp
qed

lemma styled_match_bounds:
  assumes "styled_match s = Some n"
  shows "n \<le> length s" and "0 < n"
  using assms delimited_bounds link_parts_bounds
  by (auto simp: styled_match_def orelse_def split: option.splits)

lemma pattern_match_bounds:
  assumes "pattern_match s = Some n"
  shows "n \<le> length s" and "0 < n"
  using assms styled_match_bounds plain_run_bounds
  by (auto simp: pattern_match_def orelse_def split: option.splits)

lemma drop_Cons_facts:
  assumes "c # cs = drop pos line"
  shows "pos < length line" and "cs = drop (Suc pos) line" and "line ! pos = c"
proof -
  show p: "pos < length line"
  proof (rule ccontr)
    assume "\<not> pos < length line"
    then have "drop pos line = []" by simp
    with assms show False by simp
  qed
  have eq: "line ! pos # drop (Suc pos) line = c # cs"
    using Cons_nth_drop_Suc[OF p] assms by simp
  from eq show "cs = drop (Suc pos) line" by simp
  from eq show "line ! pos = c" by simp
qed

lemma slice_snoc:
  assumes "last_end \<le> pos" and "pos < length line"
  shows "slice line last_end (Suc pos) = slice line last_end pos @ [line ! pos]"
proof -
  have "Suc pos - last_end = Suc (pos - last_end)" using assms by simp
  moreover have "pos - last_end < length (drop last_end line)" using assms by simp
  moreover have "drop last_end line ! (pos - last_end) = line ! pos" using assms by simp
  ultimately show ?thesis
    by (simp add: slice_def take_Suc_conv_app_nth)
qed

lemma slice_empty_iff:
  assumes "last_end \<le> pos" and "pos \<le> length line"
  shows "slice line last_end pos = [] \<longleftrightarrow> \<not> last_end < pos"
  using assms by (auto simp: slice_def)

lemma collect_direct:
  "s = drop pos line \<Longrightarrow> pos \<le> length line \<Longrightarrow> last_end \<le> pos \<Longrightarrow>
   (case collect_tokens line (scan_matches pos s) tokens last_end of
      (ts, le) \<Rightarrow> ts @ (if le < length line then [(Plain, drop le line)] else [])) =
   tokens @ direct_tokens (slice line last_end pos) s"
proof (induction pos s arbitrary: tokens last_end rule: scan_matches.induct)
  case (1 pos)
  then have "pos = length line" by simp
  then show ?case using 1 by (auto simp: slice_def)
next
  case (2 pos c cs)
  note facts = drop_Cons_facts[OF "2.prems"(1)]
  show ?case
  proof (cases "pattern_match (c # cs)")
    case None
    have "slice line last_end (Suc pos) = slice line last_end pos @ [c]"
      using slice_snoc[OF "2.prems"(3) facts(1)] facts(3) by simp
    moreover have "(case collect_tokens line (scan_matches (Suc pos) cs) tokens last_end of
      (ts, le) \<Rightarrow> ts @ (if le < length line then [(Plain, drop le line)] else [])) =
      tokens @ direct_tokens (slice line last_end (Suc pos)) cs"
      using "2.IH"(1)[OF None facts(2)] facts(1) "2.prems"(3) by simp
    ultimately show ?thesis using None by simp
  next
    case (Some n)
    note b = pattern_match_bounds[OF Some]
    have d: "drop (n - 1) cs = drop (pos + n) line"
    proof -
      have "drop (n - 1) cs = drop n (c # cs)" using b(2) by (cases n) simp_all
      also have "\<dots> = drop (pos + n) line" unfolding "2.prems"(1) by (simp add: add.commute)
      finally show ?thesis .
    qed
    have le: "pos + n \<le> length line"
    proof -
      have "length (c # cs) = length line - pos" unfolding "2.prems"(1) by simp
      with b(1) facts(1) show ?thesis by simp
    qed
    have tk: "slice line pos (pos + n) = take n (c # cs)"
      unfolding "2.prems"(1) by (simp add: slice_def)
    have e: "slice line (pos + n) (pos + n) = []" by (simp add: slice_def)
    have ih: "(case collect_tokens line (scan_matches (pos + n) (drop (n - 1) cs)) toks (pos + n) of
      (ts, le) \<Rightarrow> ts @ (if le < length line then [(Plain, drop le line)] else [])) =
      toks @ direct_tokens [] (drop (n - 1) cs)" for toks
      using "2.IH"(2)[OF Some d le, of "pos + n" toks] e by simp
    have g: "slice line last_end pos = [] \<longleftrightarrow> \<not> last_end < pos"
      using slice_empty_iff[OF "2.prems"(3) "2.prems"(2)] .
    show ?thesis using Some g by (simp add: ih[unfolded One_nat_def] tk)
  qed
qed

lemma direct_tokens_Nil_iff: "direct_tokens gap s = [] \<longleftrightarrow> gap = [] \<and> s = []"
  by (induction gap s rule: direct_tokens.induct) (auto split: option.splits)

lemma line_tokens_direct:
  "line_tokens line = (if line = [] then [(Plain, [])] else direct_tokens [] line)"
proof -
  have "(case collect_tokens line (scan_matches 0 line) [] 0 of
      (ts, le) \<Rightarrow> ts @ (if le < length line then [(Plain, drop le line)] else [])) =
      direct_tokens [] line"
    using collect_direct[of line 0 line 0 "[]"] by (simp add: slice_def)
  then show ?thesis
    by (auto simp: line_tokens_def finditer_def Let_def direct_tokens_Nil_iff split: prod.splits if_splits)
qed


lemma rstrip_Nil_iff: "rstrip s = [] \<longleftrightarrow> (\<forall>c\<in>set s. is_space c)"
  by (simp add: rstrip_def dropWhile_eq_Nil_conv)

lemma rstrip_all_space: "(\<forall>c\<in>set (rstrip s). is_space c) \<Longrightarrow> rstrip s = []"
proof (rule ccontr)
  assume a: "\<forall>c\<in>set (rstrip s). is_space c" and n: "rstrip s \<noteq> []"
  let ?d = "dropWhile is_space (rev s)"
  from n have d: "?d \<noteq> []" by (simp add: rstrip_def)
  then have "\<not> is_space (hd ?d)" by (rule hd_dropWhile)
  moreover have "hd ?d \<in> set (rstrip s)" using d by (simp add: rstrip_def)
  ultimately show False using a by blast
qed

lemma set_rstrip: "set (rstrip s) \<subseteq> set s"
  using set_dropWhileD[of _ is_space "rev s"] by (auto simp: rstrip_def)

lemma set_strip: "set (strip s) \<subseteq> set s"
  using set_dropWhileD[of _ is_space "rstrip s"] set_rstrip[of s] by (auto simp: strip_def lstrip_def)

lemma strip_Nil_iff: "strip s = [] \<longleftrightarrow> (\<forall>c\<in>set s. is_space c)"
proof
  assume "strip s = []"
  then have "\<forall>c\<in>set (rstrip s). is_space c"
    by (simp add: strip_def lstrip_def dropWhile_eq_Nil_conv)
  then have "rstrip s = []" by (rule rstrip_all_space)
  then show "\<forall>c\<in>set s. is_space c" by (simp add: rstrip_Nil_iff)
next
  assume "\<forall>c\<in>set s. is_space c"
  then have "rstrip s = []" by (simp add: rstrip_Nil_iff)
  then show "strip s = []" by (simp add: strip_def lstrip_def)
qed

lemma delim_not_space: "is_delim c \<Longrightarrow> \<not> is_space c"
  by (auto simp: is_delim_def is_space_def)

lemma no_match_delim: "pattern_match (c # cs) = None \<Longrightarrow> is_delim c"
  by (auto simp: pattern_match_def orelse_def plain_run_def split: option.splits if_splits)

lemma flush_runs: "\<forall>c\<in>set gap. is_delim c \<Longrightarrow> token_runs (flush gap @ ts) = map render (flush gap) @ token_runs ts"
proof (cases "gap = []")
  case True
  then show ?thesis by (simp add: flush_def)
next
  case False
  assume d: "\<forall>c\<in>set gap. is_delim c"
  from False obtain c where "c \<in> set gap" by (cases gap) auto
  with d have "\<not> (\<forall>c\<in>set gap. is_space c)" using delim_not_space by blast
  then have "strip gap \<noteq> []" by (simp add: strip_Nil_iff)
  with False show ?thesis by (simp add: flush_def render_def)
qed

lemma direct_tokens_flush:
  "direct_tokens gap [] = flush gap"
  "direct_tokens gap (c # cs) =
     (case pattern_match (c # cs) of
        None \<Rightarrow> direct_tokens (gap @ [c]) cs
      | Some n \<Rightarrow> flush gap @ (Markdown, take n (c # cs)) # direct_tokens [] (drop (n - 1) cs))"
  by (simp_all add: flush_def split: option.splits)

lemma token_runs_direct:
  "\<forall>c\<in>set gap. is_delim c \<Longrightarrow>
   token_runs (direct_tokens gap s) = map render (direct_tokens gap s)"
proof (induction gap s rule: direct_tokens.induct)
  case (1 gap)
  then show ?case using flush_runs[of gap "[]"] by (simp add: direct_tokens_flush del: direct_tokens.simps)
next
  case (2 gap c cs)
  show ?case
  proof (cases "pattern_match (c # cs)")
    case None
    then have "is_delim c" by (rule no_match_delim)
    with 2 None show ?thesis by (simp add: direct_tokens_flush del: direct_tokens.simps)
  next
    case (Some n)
    have ih: "token_runs (direct_tokens [] (drop (n - 1) cs)) = map render (direct_tokens [] (drop (n - 1) cs))"
      using "2.IH"(2)[OF Some] by simp
    have "token_runs (flush gap @ (Markdown, take n (c # cs)) # direct_tokens [] (drop (n - 1) cs)) =
          map render (flush gap) @ token_runs ((Markdown, take n (c # cs)) # direct_tokens [] (drop (n - 1) cs))"
      using flush_runs[OF "2.prems"] by blast
    then show ?thesis using Some ih
      by (simp add: direct_tokens_flush render_def del: direct_tokens.simps)
  qed
qed

lemma line_runs_direct:
  "line \<noteq> [] \<Longrightarrow> line_runs line = map render (direct_tokens [] line)"
  by (simp add: line_runs_def line_tokens_direct token_runs_direct)




lemma split_nl_single: "NL \<notin> set s \<Longrightarrow> split_nl s = [s]"
  by (induction s) auto

lemma startswith_Cons: "startswith (c # cs) (m # ms) \<longleftrightarrow> c = m \<and> startswith cs ms"
  by (auto simp: startswith_def)


lemma styled_match_delim: "styled_match (c # cs) = Some n \<Longrightarrow> is_delim c"
  by (auto simp: styled_match_def orelse_def delimited_def link_parts_def Let_def
      startswith_Cons is_delim_def split: option.splits if_splits)


lemma unstyled_token:
  assumes "\<not> is_delim c"
  shows "markdown_token_run (c # cs) = plain_token_run (c # cs)"
proof -
  from assms have "c \<noteq> STAR" "c \<noteq> USCORE" "c \<noteq> BTICK" "c \<noteq> TILDE" "c \<noteq> LBRACK"
    by (auto simp: is_delim_def)
  then show ?thesis
    by (simp add: markdown_token_run_def plain_token_run_def clean_text_def is_bold_def
        is_italic_def is_code_def is_strikethrough_def is_link_def startswith_Cons)
qed

lemma rstrip_last: "s \<noteq> [] \<Longrightarrow> \<not> is_space (last s) \<Longrightarrow> rstrip s = s"
proof -
  assume "s \<noteq> []" and "\<not> is_space (last s)"
  then have "rev s \<noteq> []" and "\<not> is_space (hd (rev s))" by (simp_all add: hd_rev)
  then have "dropWhile is_space (rev s) = rev s" by (cases "rev s") simp_all
  then show ?thesis by (simp add: rstrip_def)
qed

lemma plain_line_match:
  assumes "src \<noteq> []" and "\<forall>c\<in>set src. \<not> is_delim c" and "\<not> is_space (last src)"
  shows "pattern_match src = Some (length src)"
proof -
  from assms(1) obtain c cs where t: "src = c # cs" by (cases src) auto
  have sm: "styled_match src = None"
  proof (cases "styled_match src")
    case (Some n)
    with t have "is_delim c" using styled_match_delim by blast
    with assms(2) t show ?thesis by simp
  qed simp
  have tw: "takeWhile (\<lambda>x. \<not> is_delim x) cs = cs" using assms(2) t by (simp add: takeWhile_eq_all_conv)
  have "rstrip cs = cs"
  proof (cases "cs = []")
    case True
    then show ?thesis by (simp add: rstrip_def)
  next
    case False
    with assms(3) t show ?thesis by (simp add: rstrip_last)
  qed
  then have "rstrip (takeWhile (\<lambda>x. \<not> is_delim x) cs) = cs" unfolding tw .
  with sm t assms(2) show ?thesis
    by (simp add: pattern_match_def orelse_def plain_run_def)
qed

lemma plain_line_runs:
  assumes "src \<noteq> []" and "\<forall>c\<in>set src. \<not> is_delim c" and "\<not> is_space (last src)"
  shows "line_runs src = [plain_token_run src]"
proof -
  from assms(1) obtain c cs where t: "src = c # cs" by (cases src) auto
  have "pattern_match (c # cs) = Some (Suc (length cs))"
    using plain_line_match[OF assms] t by simp
  then have "direct_tokens [] (c # cs) = [(Markdown, c # cs)]" by simp
  moreover have "markdown_token_run (c # cs) = plain_token_run (c # cs)"
    using unstyled_token assms(2) t by simp
  ultimately show ?thesis using t by (simp add: line_runs_direct render_def)
qed

text \<open>
  C7, as the code has it.  A text of one line that is not empty, has none of the five
  delimiter characters of the pattern and does not end in whitespace gives one paragraph
  with one run; the run's text is the input and no style is set on it.
\<close>

theorem plain_text_single_span:
  assumes "src \<noteq> []" and "NL \<notin> set src" and "\<forall>c\<in>set src. \<not> is_delim c"
    and "\<not> is_space (last src)"
  shows "parse_markdown_formatting src =
    [[\<lparr>run_text = src, bold = False, italic = False, monospace = False,
       strikethrough = False, hyperlink = None\<rparr>]]"
proof -
  have "last src \<in> set src" using assms(1) by simp
  with assms(4) have "strip src \<noteq> []" by (auto simp: strip_Nil_iff)
  then show ?thesis
    using plain_line_runs[OF assms(1,3,4)] split_nl_single[OF assms(2)]
    by (simp add: parse_markdown_formatting_def plain_token_run_def)
qed































subsection \<open>Concrete texts\<close>

text \<open>Unfolding these evaluates the string functions and the formatter on a literal.\<close>

lemmas str_eval = ascii_def startswith_def endswith_def line_rest_def strip_def lstrip_def rstrip_def
  is_space_def slice_def contains_def find_str_def

lemmas fmt_eval = spans_def parse_markdown_formatting_def line_runs_def line_tokens_def finditer_def
  pattern_match_def styled_match_def orelse_def delimited_def link_parts_def plain_run_def
  is_delim_def markdown_token_run_def plain_token_run_def clean_text_def link_url_def
  is_bold_def is_italic_def is_code_def is_strikethrough_def is_link_def unstyled_def Let_def

text \<open>C7 at the text \<^verbatim>\<open>Use plain\<close>.\<close>

theorem plain_text_single_span_witness:
  "parse_markdown_formatting (ascii ''Use plain'') =
    [[\<lparr>run_text = ascii ''Use plain'', bold = False, italic = False, monospace = False,
       strikethrough = False, hyperlink = None\<rparr>]]"
  using plain_text_single_span[of "ascii ''Use plain''"]
  by (simp add: ascii_def is_delim_def is_space_def)

text \<open>
  C7 as stated fails where the text ends in whitespace: \<^verbatim>\<open>abc\<close> followed by a space has no
  delimiter and gives two runs, because the pattern's run of plain characters must end in
  a character that is not whitespace.
\<close>

theorem trailing_space_counterexample:
  "ascii ''abc '' \<noteq> [] \<and> NL \<notin> set (ascii ''abc '') \<and> filter is_delim (ascii ''abc '') = [] \<and>
   parse_markdown_formatting (ascii ''abc '') =
     [[\<lparr>run_text = ascii ''abc'', bold = False, italic = False, monospace = False,
        strikethrough = False, hyperlink = None\<rparr>,
       \<lparr>run_text = ascii '' '', bold = False, italic = False, monospace = False,
        strikethrough = False, hyperlink = None\<rparr>]]"
  by (simp add: fmt_eval str_eval)




section \<open>The document extractor\<close>

lemma split_nl_nonempty: "split_nl s \<noteq> []"
  by (induction s) (auto split: list.splits)

lemma split_nl_Cons:
  "split_nl (c # cs) =
     (if c = NL then [] # split_nl cs else (c # hd (split_nl cs)) # tl (split_nl cs))"
  using split_nl_nonempty[of cs] by (cases "split_nl cs") simp_all

lemma hd_split_nl: "hd (split_nl s) = line_rest s"
  by (induction s) (simp_all add: split_nl_Cons line_rest_def del: split_nl.simps(2))

lemma heading1_line_rest:
  "heading1 (line_rest s) \<longleftrightarrow> startswith s (ascii ''# '') \<and> line_rest (drop 2 s) \<noteq> []"
proof (cases s)
  case Nil
  then show ?thesis by (simp add: heading1_def line_rest_def startswith_def ascii_def)
next
  case (Cons a r)
  show ?thesis
  proof (cases r)
    case Nil
    with Cons show ?thesis by (simp add: heading1_def line_rest_def startswith_def ascii_def)
  next
    case (Cons b r')
    with \<open>s = a # r\<close> show ?thesis
      by (auto simp: heading1_def line_rest_def startswith_def ascii_def)
  qed
qed

lemma drop2_line_rest:
  "startswith s (ascii ''# '') \<Longrightarrow> drop 2 (line_rest s) = line_rest (drop 2 s)"
  by (cases s; cases "tl s") (auto simp: line_rest_def startswith_def ascii_def)

lemma search_title_lines:
  "search_title True s = first_heading (split_nl s) \<and>
   search_title False s = first_heading (tl (split_nl s))"
proof (induction s)
  case Nil
  show ?case by (simp add: first_heading_def heading1_def)
next
  case (Cons c cs)
  have ne: "split_nl (c # cs) \<noteq> []" by (rule split_nl_nonempty)
  have hd: "hd (split_nl (c # cs)) = line_rest (c # cs)" by (rule hd_split_nl)
  have tl: "first_heading (tl (split_nl (c # cs))) = search_title (c = NL) cs"
    using Cons by (simp add: split_nl_Cons del: split_nl.simps(2))
  have sp: "split_nl (c # cs) = line_rest (c # cs) # tl (split_nl (c # cs))"
    using ne hd by (cases "split_nl (c # cs)") simp_all
  have f: "search_title False (c # cs) = first_heading (tl (split_nl (c # cs)))"
    using tl by simp
  have t: "search_title True (c # cs) = first_heading (split_nl (c # cs))"
  proof (cases "heading1 (line_rest (c # cs))")
    case True
    then have c: "startswith (c # cs) (ascii ''# '')" "line_rest (drop 2 (c # cs)) \<noteq> []"
      by (simp_all add: heading1_line_rest)
    have "first_heading (split_nl (c # cs)) = Some (drop 2 (line_rest (c # cs)))"
      using True by (subst sp) (simp add: first_heading_def)
    also have "\<dots> = Some (line_rest (drop 2 (c # cs)))" using drop2_line_rest[OF c(1)] by simp
    finally show ?thesis using c by simp
  next
    case False
    then have "\<not> (startswith (c # cs) (ascii ''# '') \<and> line_rest (drop 2 (c # cs)) \<noteq> [])"
      by (simp add: heading1_line_rest)
    then have "search_title True (c # cs) = search_title (c = NL) cs" by auto
    moreover have "first_heading (split_nl (c # cs)) = first_heading (tl (split_nl (c # cs)))"
      using False by (subst sp) (simp add: first_heading_def)
    ultimately show ?thesis using tl by simp
  qed
  from t f show ?case by blast
qed

lemma find_first: "\<forall>x\<in>set pre. \<not> P x \<Longrightarrow> P l \<Longrightarrow> List.find P (pre @ l # post) = Some l"
  by (induction pre) auto

lemma extract_title_cases:
  "(\<forall>l\<in>set (split_nl content). \<not> heading1 l) \<Longrightarrow> extract_title content = untitled"
  "split_nl content = pre @ l # post \<Longrightarrow> \<forall>x\<in>set pre. \<not> heading1 x \<Longrightarrow> heading1 l \<Longrightarrow>
     extract_title content = drop 2 l"
proof -
  assume "\<forall>l\<in>set (split_nl content). \<not> heading1 l"
  then have "List.find heading1 (split_nl content) = None" by (simp add: find_None_iff)
  then show "extract_title content = untitled"
    by (simp add: extract_title_def search_title_lines first_heading_def)
next
  assume "split_nl content = pre @ l # post" "\<forall>x\<in>set pre. \<not> heading1 x" "heading1 l"
  then have "List.find heading1 (split_nl content) = Some l" by (simp add: find_first)
  then show "extract_title content = drop 2 l"
    by (simp add: extract_title_def search_title_lines first_heading_def)
qed

text \<open>
  C3, as the code has it.  In both scripts the title of a document without a level-1
  heading line is \<^verbatim>\<open>Untitled\<close>, and the title of a document with such a line is what
  follows the \<^verbatim>\<open>#\<close> and the space on the first of them, exactly as written: whitespace at
  either end of it is kept.
\<close>

theorem title_of_first_heading:
  "((\<forall>l\<in>set (split_nl content). \<not> heading1 l) \<longrightarrow>
      title (ppt_extract net content) = untitled \<and>
      title (pandoc_extract net content) = untitled) \<and>
   (\<forall>pre l post.
      split_nl content = pre @ l # post \<and> (\<forall>x\<in>set pre. \<not> heading1 x) \<and> heading1 l \<longrightarrow>
      title (ppt_extract net content) = drop 2 l \<and>
      title (pandoc_extract net content) = drop 2 l)"
  using extract_title_cases[of content]
  by (simp add: ppt_extract_def pandoc_extract_def)

lemma find_at_None_next_line:
  "find_at hdr s p = None \<Longrightarrow> search_next_line hdr s = None"
  by (induction s arbitrary: p) (auto split: if_splits)

lemma find_at_None_block:
  "find_at hdr s p = None \<Longrightarrow> search_block hdr stop s = None"
  by (induction s arbitrary: p) (auto split: if_splits)

lemma find_at_None_label:
  "find_at image_label s p = None \<Longrightarrow> search_image_label bol s = None"
  by (induction s arbitrary: p bol) (auto split: if_splits)

lemma absent_searches:
  "\<not> contains hdr s \<Longrightarrow> search_next_line hdr s = None"
  "\<not> contains hdr s \<Longrightarrow> search_block hdr stop s = None"
  "\<not> contains image_label s \<Longrightarrow> search_image_label bol s = None"
  using find_at_None_next_line[of hdr s 0] find_at_None_block[of hdr s 0]
    find_at_None_label[of s 0]
  by (simp_all add: contains_def find_str_def)

lemma strip_Nil: "strip [] = []"
  by (simp add: strip_def lstrip_def rstrip_def)

lemma absent_ppt_notes:
  "\<not> contains italian_header content \<Longrightarrow> \<not> contains english_header content \<Longrightarrow>
   ppt_speaker_notes content = []"
  by (simp add: ppt_speaker_notes_def contains_def strip_Nil)

lemma absent_literal_image:
  "\<not> contains article_image_header content \<Longrightarrow> \<not> contains image_label content \<Longrightarrow>
   ppt_literal_image content = []"
  "\<not> contains article_image_header content \<Longrightarrow> pandoc_literal_image content = []"
  by (simp_all add: ppt_literal_image_def pandoc_literal_image_def absent_searches)

text \<open>
  C5.  For every text that was read, both extractors return a record.  In it, each field
  whose section is not in the text has its default: the title \<^verbatim>\<open>Untitled\<close> without a
  level-1 heading line; the date, the link, the focal points and the speaker notes empty
  without their heading; the image empty without its heading (and, in the presentation
  script, without the \<^verbatim>\<open>**Image:**\<close> label) when there is no link to fetch from or the
  fetch returns nothing.
\<close>

theorem missing_sections_default:
  "ppt_parse_markdown_file net (Readable content) = Inr (ppt_extract net content) \<and>
   pandoc_parse_markdown_file net (Readable content) = Inr (pandoc_extract net content) \<and>
   ((\<forall>l\<in>set (split_nl content). \<not> heading1 l) \<longrightarrow>
      title (ppt_extract net content) = untitled \<and>
      title (pandoc_extract net content) = untitled) \<and>
   (\<not> contains article_date_header content \<longrightarrow>
      date (ppt_extract net content) = [] \<and> date (pandoc_extract net content) = []) \<and>
   (\<not> contains article_url_header content \<longrightarrow>
      link (ppt_extract net content) = [] \<and> link (pandoc_extract net content) = []) \<and>
   (\<not> contains article_image_header content \<and> \<not> contains image_label content \<and>
    (\<not> contains article_url_header content \<or>
     fetched (ppt_fetch_og_image_from_url net (extract_link content) 3 1) = None) \<longrightarrow>
      image_value (ppt_extract net content) = []) \<and>
   (\<not> contains article_image_header content \<and>
    (\<not> contains article_url_header content \<or>
     fetched (pandoc_fetch_og_image_from_url net (extract_link content)) = None) \<longrightarrow>
      image_value (pandoc_extract net content) = []) \<and>
   (\<not> contains article_content_header content \<longrightarrow>
      focal_points (ppt_extract net content) = [] \<and>
      focal_points (pandoc_extract net content) = []) \<and>
   (\<not> contains italian_header content \<and> \<not> contains english_header content \<longrightarrow>
      speaker_notes (ppt_extract net content) = []) \<and>
   (\<not> contains speaker_notes_header content \<longrightarrow>
      speaker_notes (pandoc_extract net content) = [])"
  using extract_title_cases(1)[of content]
  by (auto simp: ppt_parse_markdown_file_def pandoc_parse_markdown_file_def ppt_extract_def
      pandoc_extract_def extract_date_def extract_link_def extract_focal_points_def
      pandoc_speaker_notes_def resolve_image_def absent_searches absent_ppt_notes
      absent_literal_image)

lemma quoted_value_nonempty: "quoted_value s = Some (g, r) \<Longrightarrow> g \<noteq> []"
  by (auto simp: quoted_value_def Let_def split: if_splits option.splits)

lemma og_alternatives_nonempty:
  "og_property_first s = Some g \<Longrightarrow> g \<noteq> []"
  "og_content_first s = Some g \<Longrightarrow> g \<noteq> []"
  using quoted_value_nonempty
  by (auto simp: og_property_first_def og_content_first_def split: Option.bind_splits)

lemma og_image_search_nonempty: "og_image_search h = Some g \<Longrightarrow> g \<noteq> []"
  by (induction h) (auto split: option.splits dest: og_alternatives_nonempty)

lemma fetched_nonempty:
  "fetched (ppt_fetch_og_image_from_url net url 3 1) = Some g \<Longrightarrow> g \<noteq> []"
  "fetched (pandoc_fetch_og_image_from_url net url) = Some g \<Longrightarrow> g \<noteq> []"
  unfolding ppt_fetch_cases pandoc_fetch_cases
  by (auto split: response.splits option.splits dest: og_image_search_nonempty)

text \<open>
  C6.  In both scripts, for a document with a link: when the fetch of the link returns a
  value, the image of the record is that value, whatever the literal image was; when it
  returns \<open>None\<close>, the image is the literal value.
\<close>

theorem fetched_image_precedence:
  "(link (ppt_extract net content) \<noteq> [] \<longrightarrow>
      (\<forall>v. fetched (ppt_fetch_og_image_from_url net (link (ppt_extract net content)) 3 1) = Some v
           \<longrightarrow> image_value (ppt_extract net content) = v) \<and>
      (fetched (ppt_fetch_og_image_from_url net (link (ppt_extract net content)) 3 1) = None
           \<longrightarrow> image_value (ppt_extract net content) = ppt_literal_image content)) \<and>
   (link (pandoc_extract net content) \<noteq> [] \<longrightarrow>
      (\<forall>v. fetched (pandoc_fetch_og_image_from_url net (link (pandoc_extract net content))) = Some v
           \<longrightarrow> image_value (pandoc_extract net content) = v) \<and>
      (fetched (pandoc_fetch_og_image_from_url net (link (pandoc_extract net content))) = None
           \<longrightarrow> image_value (pandoc_extract net content) = pandoc_literal_image content))"
  using fetched_nonempty[of net "extract_link content"]
  by (auto simp: ppt_extract_def pandoc_extract_def resolve_image_def)

text \<open>
  C9, as the code has it.  The extractors do not look at the value of the image; the
  changelog-index URL is excluded where the cover slide is built: the slide-markup cover
  for that URL is the cover without an image, and the presentation script does not
  download it.
\<close>

theorem cover_ignores_changelog_index:
  "create_cover_slide_markdown title_text changelog_index date_text =
     ascii ''# '' @ title_text @ [NL, NL] @ ascii ''---'' @ [NL, NL] \<and>
   create_cover_slide_markdown title_text changelog_index date_text =
     create_cover_slide_markdown title_text [] date_text \<and>
   \<not> cover_downloads_image changelog_index"
  by (simp add: create_cover_slide_markdown_def cover_downloads_image_def)

text \<open>Unfolding these evaluates the extractors on a literal.\<close>

lemmas ext_eval = ppt_extract_def pandoc_extract_def extract_title_def extract_date_def
  extract_link_def extract_focal_points_def ppt_literal_image_def pandoc_literal_image_def
  resolve_image_def ppt_speaker_notes_def pandoc_speaker_notes_def
  article_date_header_def article_url_header_def article_image_header_def
  article_content_header_def image_label_def image_label_value_def url_run_def
  level3_marker_def level2_marker_def ppt_bullet_def pandoc_bullet_def untitled_def
  italian_header_def english_header_def main_section_def speaker_notes_header_def
  changelog_index_def Let_def

text \<open>
  The loop over the lines of the block contributes line by line, in order, whatever the
  bullet literal is.
\<close>

lemma focal_loop_by_line:
  "bullet \<noteq> [] \<Longrightarrow> focal_loop bullet ls acc = acc @ concat (map (focal_of_line bullet) ls)"
proof (induction ls arbitrary: acc)
  case Nil
  then show ?case by simp
next
  case (Cons l ls)
  have "strip l = [] \<Longrightarrow> focal_of_line bullet l = []"
    using Cons.prems by (cases bullet) (simp_all add: focal_of_line_def startswith_def ascii_def)
  with Cons show ?case by (simp add: focal_of_line_def Let_def)
qed

lemma focal_points_by_line:
  "bullet \<noteq> [] \<Longrightarrow>
   extract_focal_points bullet content =
     (case search_block article_content_header level3_marker content of
        None \<Rightarrow> []
      | Some points_text \<Rightarrow> concat (map (focal_of_line bullet) (split_nl (strip points_text))))"
  by (simp add: extract_focal_points_def focal_loop_by_line split: option.splits)

text \<open>
  So, in the presentation script, the focal points are one entry for each line of the
  block that is a bullet line or has a bold lead-in, in the order of the lines.
\<close>

lemma ppt_focal_points_by_line:
  "focal_points (ppt_extract net content) =
     (case search_block article_content_header level3_marker content of
        None \<Rightarrow> []
      | Some points_text \<Rightarrow>
          concat (map (focal_of_line ppt_bullet) (split_nl (strip points_text))))"
  using focal_points_by_line[of ppt_bullet content]
  by (simp add: ppt_extract_def ppt_bullet_def)

text \<open>
  C4 at a document whose block has one line with the bullet character and one with a
  hyphen: the slide-markup script returns one focal point, the presentation script two.
\<close>

theorem pandoc_drops_bullet_lines:
  "focal_points (pandoc_extract unreachable_net bullet_document) = [ascii ''two''] \<and>
   focal_points (ppt_extract unreachable_net bullet_document) = [ascii ''one'', ascii ''two'']"
  by (simp add: bullet_document_def ext_eval str_eval)

text \<open>
  C3 as stated fails: the heading text of \<^verbatim>\<open># Hello\<close> followed by a space is returned with
  its trailing space.
\<close>

theorem title_whitespace_counterexample:
  "heading1 (ascii ''# Hello '') \<and>
   title (ppt_extract unreachable_net (ascii ''# Hello '')) = ascii ''Hello '' \<and>
   title (pandoc_extract unreachable_net (ascii ''# Hello '')) = ascii ''Hello '' \<and>
   strip (ascii ''Hello '') \<noteq> ascii ''Hello ''"
  by (simp add: heading1_def ext_eval str_eval)

text \<open>
  C9 as stated fails: a document whose Article Image section holds the changelog-index
  URL is extracted with that URL as its image.
\<close>

theorem changelog_index_counterexample:
  "image_value (ppt_extract unreachable_net (article_image_header @ changelog_index)) =
     changelog_index \<and>
   image_value (pandoc_extract unreachable_net (article_image_header @ changelog_index)) =
     changelog_index"
  by (simp add: ext_eval str_eval)

text \<open>
  C10 as stated fails at the scenario of the specification: the slide-markup script finds
  the speaker notes under \<^verbatim>\<open>### Speaker Notes\<close>, the presentation script looks for the two
  language headings and finds none.
\<close>

theorem extractors_differ_counterexample:
  "speaker_notes (ppt_extract unreachable_net scenario) = [] \<and>
   speaker_notes (pandoc_extract unreachable_net scenario) = ascii ''Note body'' \<and>
   ppt_extract unreachable_net scenario \<noteq> pandoc_extract unreachable_net scenario"
proof -
  have 1: "speaker_notes (ppt_extract unreachable_net scenario) = []"
    by (simp add: scenario_def ext_eval str_eval)
  have 2: "speaker_notes (pandoc_extract unreachable_net scenario) = ascii ''Note body''"
    by (simp add: scenario_def ext_eval str_eval)
  have "ascii ''Note body'' \<noteq> []" by (simp add: ascii_def)
  with 1 2 show ?thesis by metis
qed

text \<open>C3 at a document with two headings and at one with none.\<close>

theorem title_of_first_heading_witness:
  "title (ppt_extract unreachable_net two_headings) = ascii ''Hello '' \<and>
   title (pandoc_extract unreachable_net two_headings) = ascii ''Hello '' \<and>
   title (ppt_extract unreachable_net (ascii ''no heading'')) = untitled \<and>
   title (pandoc_extract unreachable_net (ascii ''no heading'')) = untitled"
proof -
  have s: "split_nl two_headings = [ascii ''intro''] @ ascii ''# Hello '' # [ascii ''# Second'']"
    by (simp add: two_headings_def ascii_def)
  have p: "\<forall>x\<in>set [ascii ''intro'']. \<not> heading1 x"
    by (simp add: heading1_def startswith_def ascii_def)
  have h: "heading1 (ascii ''# Hello '')"
    by (simp add: heading1_def startswith_def ascii_def)
  have d: "drop 2 (ascii ''# Hello '') = ascii ''Hello ''" by (simp add: ascii_def)
  have n: "\<forall>l\<in>set (split_nl (ascii ''no heading'')). \<not> heading1 l"
    by (simp add: heading1_def startswith_def ascii_def)
  from title_of_first_heading[of two_headings unreachable_net] s p h
  have "title (ppt_extract unreachable_net two_headings) = drop 2 (ascii ''# Hello '') \<and>
        title (pandoc_extract unreachable_net two_headings) = drop 2 (ascii ''# Hello '')"
    by blast
  moreover from title_of_first_heading[of "ascii ''no heading''" unreachable_net] n
  have "title (ppt_extract unreachable_net (ascii ''no heading'')) = untitled \<and>
        title (pandoc_extract unreachable_net (ascii ''no heading'')) = untitled"
    by blast
  ultimately show ?thesis unfolding d by blast
qed

text \<open>C5 at a document with nothing but a content block and at one with no section.\<close>

theorem missing_sections_default_witness:
  "ppt_parse_markdown_file unreachable_net (Readable bullet_document) =
     Inr (ppt_extract unreachable_net bullet_document) \<and>
   ppt_extract unreachable_net bullet_document =
     \<lparr>title = untitled, date = [], link = [], image_value = [],
      focal_points = [ascii ''one'', ascii ''two''], speaker_notes = []\<rparr> \<and>
   pandoc_parse_markdown_file unreachable_net (Readable (ascii ''just words'')) =
     Inr \<lparr>title = untitled, date = [], link = [], image_value = [],
          focal_points = [], speaker_notes = []\<rparr>"
proof -
  have a: "\<forall>l\<in>set (split_nl bullet_document). \<not> heading1 l"
    by (simp add: bullet_document_def heading1_def startswith_def ascii_def)
  have b: "\<not> contains article_date_header bullet_document"
    "\<not> contains article_url_header bullet_document"
    "\<not> contains article_image_header bullet_document"
    "\<not> contains image_label bullet_document"
    "\<not> contains italian_header bullet_document"
    "\<not> contains english_header bullet_document"
    by (simp_all add: bullet_document_def ext_eval str_eval)
  have f: "focal_points (ppt_extract unreachable_net bullet_document) = [ascii ''one'', ascii ''two'']"
    by (simp add: bullet_document_def ext_eval str_eval)
  have a': "\<forall>l\<in>set (split_nl (ascii ''just words'')). \<not> heading1 l"
    by (simp add: heading1_def startswith_def ascii_def)
  have b': "\<not> contains article_date_header (ascii ''just words'')"
    "\<not> contains article_url_header (ascii ''just words'')"
    "\<not> contains article_image_header (ascii ''just words'')"
    "\<not> contains article_content_header (ascii ''just words'')"
    "\<not> contains speaker_notes_header (ascii ''just words'')"
    by (simp_all add: ext_eval str_eval)
  from missing_sections_default[of unreachable_net bullet_document] a b f
  have 1: "ppt_parse_markdown_file unreachable_net (Readable bullet_document) =
       Inr (ppt_extract unreachable_net bullet_document) \<and>
     ppt_extract unreachable_net bullet_document =
       \<lparr>title = untitled, date = [], link = [], image_value = [],
        focal_points = [ascii ''one'', ascii ''two''], speaker_notes = []\<rparr>"
    by (cases "ppt_extract unreachable_net bullet_document") simp
  from missing_sections_default[of unreachable_net "ascii ''just words''"] a' b'
  have 2: "pandoc_parse_markdown_file unreachable_net (Readable (ascii ''just words'')) =
     Inr \<lparr>title = untitled, date = [], link = [], image_value = [],
          focal_points = [], speaker_notes = []\<rparr>"
    by (cases "pandoc_extract unreachable_net (ascii ''just words'')") simp
  from 1 2 show ?thesis by blast
qed

text \<open>C6 at a document with a link and a literal image, with and without a page.\<close>

theorem fetched_image_precedence_witness:
  "image_value (ppt_extract og_page_net linked_document) = ascii ''https://github.blog/og.png'' \<and>
   image_value (ppt_extract unreachable_net linked_document) = ascii ''https://github.blog/lit.png'' \<and>
   image_value (pandoc_extract og_page_net linked_document) = ascii ''https://github.blog/og.png'' \<and>
   image_value (pandoc_extract unreachable_net linked_document) = ascii ''https://github.blog/lit.png''"
proof -
  have l: "extract_link linked_document = ascii ''https://github.blog/x''"
    by (simp add: linked_document_def ext_eval str_eval)
  then have l': "link (ppt_extract net linked_document) = ascii ''https://github.blog/x''"
    "link (pandoc_extract net linked_document) = ascii ''https://github.blog/x''" for net
    by (simp_all add: ppt_extract_def pandoc_extract_def)
  have ne: "ascii ''https://github.blog/x'' \<noteq> []" by (simp add: ascii_def)
  have og: "og_image_search og_page = Some (ascii ''https://github.blog/og.png'')"
    by (simp add: og_page_def og_property_first_def og_content_first_def spaces1_def
        quoted_value_def is_quote_def ci_eq_def str_eval)
  have f1: "fetched (ppt_fetch_og_image_from_url og_page_net u 3 1) =
      Some (ascii ''https://github.blog/og.png'')" for u
    unfolding ppt_fetch_cases by (simp add: og_page_net_def og)
  have f2: "fetched (pandoc_fetch_og_image_from_url og_page_net u) =
      Some (ascii ''https://github.blog/og.png'')" for u
    unfolding pandoc_fetch_cases by (simp add: og_page_net_def og)
  have f3: "fetched (ppt_fetch_og_image_from_url unreachable_net u 3 1) = None" for u
    unfolding ppt_fetch_cases by (simp add: unreachable_net_def)
  have f4: "fetched (pandoc_fetch_og_image_from_url unreachable_net u) = None" for u
    unfolding pandoc_fetch_cases by (simp add: unreachable_net_def)
  have lit: "ppt_literal_image linked_document = ascii ''https://github.blog/lit.png''"
    "pandoc_literal_image linked_document = ascii ''https://github.blog/lit.png''"
    by (simp_all add: linked_document_def ext_eval str_eval)
  from fetched_image_precedence[of og_page_net linked_document]
    fetched_image_precedence[of unreachable_net linked_document]
  show ?thesis unfolding l' f1 f2 f3 f4 lit using ne by simp
qed

lemma set_lazy_block: "set (lazy_block stop prev s) \<subseteq> set s"
  by (induction s arbitrary: prev) auto

lemma set_search_block: "search_block hdr stop s = Some g \<Longrightarrow> set g \<subseteq> set s"
proof (induction s)
  case Nil
  then show ?case by simp
next
  case (Cons c cs)
  show ?case
  proof (cases "startswith (c # cs) hdr")
    case False
    with Cons show ?thesis by auto
  next
    case True
    show ?thesis
    proof (cases "drop (length hdr) (c # cs)")
      case Nil
      with True Cons show ?thesis by auto
    next
      case (Cons x xs)
      with True Cons.prems have g: "g = x # lazy_block stop x xs" by simp
      have "set (x # xs) \<subseteq> set (c # cs)"
        using set_drop_subset[of "length hdr" "c # cs"] Cons by simp
      with g set_lazy_block[of stop x xs] show ?thesis by auto
    qed
  qed
qed

lemma set_split_nl: "l \<in> set (split_nl s) \<Longrightarrow> set l \<subseteq> set s"
proof (induction s arbitrary: l)
  case Nil
  then show ?case by simp
next
  case (Cons c cs)
  have ne: "split_nl cs \<noteq> []" by (rule split_nl_nonempty)
  show ?case
  proof (cases "c = NL")
    case True
    with Cons show ?thesis by (auto simp: split_nl_Cons simp del: split_nl.simps(2))
  next
    case False
    with Cons.prems have "l = c # hd (split_nl cs) \<or> l \<in> set (tl (split_nl cs))"
      by (simp add: split_nl_Cons del: split_nl.simps(2))
    then show ?thesis
    proof
      assume "l = c # hd (split_nl cs)"
      moreover have "hd (split_nl cs) \<in> set (split_nl cs)" using ne by simp
      ultimately show ?thesis using Cons.IH by auto
    next
      assume "l \<in> set (tl (split_nl cs))"
      then have "l \<in> set (split_nl cs)" using ne by (cases "split_nl cs") simp_all
      then show ?thesis using Cons.IH by auto
    qed
  qed
qed

lemma startswith_hd_mem: "startswith s (b # r) \<Longrightarrow> b \<in> set s"
  by (cases s) (auto simp: startswith_def)

lemma focal_loop_same:
  assumes "\<forall>l\<in>set ls. b1 \<notin> set l \<and> b2 \<notin> set l"
  shows "focal_loop (b1 # r1) ls acc = focal_loop (b2 # r2) ls acc"
  using assms
proof (induction ls arbitrary: acc)
  case Nil
  then show ?case by simp
next
  case (Cons l ls)
  then have "b1 \<notin> set (strip l)" "b2 \<notin> set (strip l)" using set_strip[of l] by auto
  then have "\<not> startswith (strip l) (b1 # r1)" "\<not> startswith (strip l) (b2 # r2)"
    using startswith_hd_mem by blast+
  with Cons show ?case by (simp add: Let_def)
qed

lemma focal_points_agree:
  assumes "8226 \<notin> set content" and "8218 \<notin> set content"
  shows "extract_focal_points ppt_bullet content = extract_focal_points pandoc_bullet content"
proof (cases "search_block article_content_header level3_marker content")
  case None
  then show ?thesis by (simp add: extract_focal_points_def)
next
  case (Some g)
  have "\<forall>l\<in>set (split_nl (strip g)). 8226 \<notin> set l \<and> 8218 \<notin> set l"
  proof
    fix l assume "l \<in> set (split_nl (strip g))"
    then have "set l \<subseteq> set (strip g)" by (rule set_split_nl)
    also have "\<dots> \<subseteq> set g" by (rule set_strip)
    also have "\<dots> \<subseteq> set content" using Some by (rule set_search_block)
    finally show "8226 \<notin> set l \<and> 8218 \<notin> set l" using assms by blast
  qed
  then show ?thesis using Some
    by (simp add: extract_focal_points_def ppt_bullet_def pandoc_bullet_def focal_loop_same)
qed

text \<open>
  C10, as the code has it.  The two extractors agree on the title, the date and the link
  of every document, on the failure for a file that cannot be read, and on the focal
  points of every document that has neither U+2022 nor U+201A in it.
\<close>

theorem extractors_agree_partly:
  "title (ppt_extract net content) = title (pandoc_extract net content) \<and>
   date (ppt_extract net content) = date (pandoc_extract net content) \<and>
   link (ppt_extract net content) = link (pandoc_extract net content) \<and>
   (8226 \<notin> set content \<and> 8218 \<notin> set content \<longrightarrow>
      focal_points (ppt_extract net content) = focal_points (pandoc_extract net content)) \<and>
   ppt_parse_markdown_file net Unreadable = pandoc_parse_markdown_file net Unreadable"
  using focal_points_agree[of content]
  by (simp add: ppt_extract_def pandoc_extract_def ppt_parse_markdown_file_def
      pandoc_parse_markdown_file_def)

text \<open>C10 at the scenario of the specification.\<close>

theorem extractors_agree_partly_witness:
  "title (ppt_extract unreachable_net scenario) = title (pandoc_extract unreachable_net scenario) \<and>
   date (ppt_extract unreachable_net scenario) = date (pandoc_extract unreachable_net scenario) \<and>
   link (ppt_extract unreachable_net scenario) = link (pandoc_extract unreachable_net scenario) \<and>
   focal_points (ppt_extract unreachable_net scenario) =
     focal_points (pandoc_extract unreachable_net scenario)"
proof -
  have "8226 \<notin> set scenario" "8218 \<notin> set scenario"
    by (simp_all add: scenario_def ascii_def)
  with extractors_agree_partly[of unreachable_net scenario] show ?thesis by blast
qed

end
